theory Spec2Isabelle
  imports Complex_Main "HOL-Library.Char_ord" "HOL-Library.List_Lexorder" "HOL-Library.Log_Nat"
begin

text \<open>
  A model of the node utilities of the Figma command-line client: node-id normalization,
  path resolution and tree projection (\<^verbatim>\<open>src/utils/nodes.ts\<close>), export-scale resolution
  (\<^verbatim>\<open>src/commands/export.ts\<close>), padding inference and style derivation
  (\<^verbatim>\<open>src/commands/styles.ts\<close>), snapshots and their diff (\<^verbatim>\<open>src/commands/diff.ts\<close>) and
  the audit's colors and score (the audit command). The first chapter translates the
  TypeScript functions, the second defines the notions in which their properties are
  stated, the third holds sample inputs, and the last proves the properties.
\<close>

chapter \<open>The program\<close>

section \<open>Strings\<close>

text \<open>
  A JavaScript string is modelled as a \<^typ>\<open>string\<close>: a list of code units, each below 256.
  The white space code units of \<^verbatim>\<open>String.prototype.trim\<close> in that range are TAB, LF, VT,
  FF, CR, SPACE and NBSP (U+00A0); the white space code units above 255 (U+1680, U+2000 to
  U+200A, U+2028, U+2029, U+202F, U+205F, U+3000, U+FEFF) are outside the model. Strings are
  compared by code unit, lexicographically, as \<^verbatim>\<open>Array.prototype.sort\<close> compares them by
  default: this is the order \<open>(<)\<close> of \<^typ>\<open>string\<close>.
\<close>

definition isWhiteSpace :: "char \<Rightarrow> bool" where
  "isWhiteSpace c \<longleftrightarrow>
     c = CHR 0x09 \<or> c = CHR 0x0A \<or> c = CHR 0x0B \<or> c = CHR 0x0C \<or> c = CHR 0x0D \<or>
     c = CHR 0x20 \<or> c = CHR 0xA0"

text \<open>\<^verbatim>\<open>s.trim()\<close>: white space removed from both ends.\<close>

definition trim :: "string \<Rightarrow> string" where
  "trim s = rev (dropWhile isWhiteSpace (rev (dropWhile isWhiteSpace s)))"

text \<open>\<^verbatim>\<open>s.replace(/-/g, ':')\<close>: every dash becomes a colon.\<close>

definition replaceDashes :: "string \<Rightarrow> string" where
  "replaceDashes s = map (\<lambda>c. if c = CHR ''-'' then CHR '':'' else c) s"

text \<open>
  \<^verbatim>\<open>s.toLowerCase()\<close>: below 256 the letters with a lower-case form are A to Z and
  U+00C0 to U+00DE without the multiplication sign U+00D7; the lower-case form is 32 higher.
\<close>

definition toLowerCaseChar :: "char \<Rightarrow> char" where
  "toLowerCaseChar c =
     (let n = (of_char c :: nat)
      in if (65 \<le> n \<and> n \<le> 90) \<or> (192 \<le> n \<and> n \<le> 222 \<and> n \<noteq> 215) then char_of (n + 32)
         else c)"

definition toLowerCase :: "string \<Rightarrow> string" where
  "toLowerCase s = map toLowerCaseChar s"

text \<open>\<^verbatim>\<open>parts.join(sep)\<close>.\<close>

fun joinWith :: "string \<Rightarrow> string list \<Rightarrow> string" where
  "joinWith sep [] = []"
| "joinWith sep [x] = x"
| "joinWith sep (x # y # rest) = x @ sep @ joinWith sep (y # rest)"

text \<open>\<^verbatim>\<open>s.padStart(targetLength, padChar)\<close> for a padding string of one character.\<close>

definition padStart :: "nat \<Rightarrow> char \<Rightarrow> string \<Rightarrow> string" where
  "padStart targetLength padChar s = replicate (targetLength - length s) padChar @ s"

section \<open>Numbers\<close>

text \<open>
  A JavaScript number is an IEEE 754 binary64 value: a finite value, \<open>Infinity\<close>,
  \<open>-Infinity\<close> or \<open>NaN\<close>. A finite value is carried as the rational it denotes, which is 0
  or \<open>m * 2 ^ e\<close> up to sign, for integers \<open>m < 2 ^ 53\<close> and \<open>-1074 \<le> e \<le> 971\<close>. The sign
  of zero is not modelled: there is one zero.
\<close>

datatype jsnum = Fin rat | PosInf | NegInf | NaN

text \<open>
  The exponent of a positive rational: the integer \<open>l\<close> with \<open>2 ^ l \<le> a < 2 ^ (l + 1)\<close>,
  read from the number of bits of the integer part of \<open>a\<close>, or of \<open>1 / a\<close> below 1.
\<close>

definition floorLog2 :: "rat \<Rightarrow> int" where
  "floorLog2 a = (if 1 \<le> a then bitlen \<lfloor>a\<rfloor> - 1 else - bitlen (\<lceil>1 / a\<rceil> - 1))"

text \<open>The nearest integer, a half going to the even neighbour.\<close>

definition roundHalfEven :: "rat \<Rightarrow> int" where
  "roundHalfEven q =
     (let f = \<lfloor>q\<rfloor>;
          r = q - of_int f
      in if r < 1 / 2 then f else if 1 / 2 < r then f + 1 else if even f then f else f + 1)"

text \<open>
  The rounding of IEEE 754 in the default mode (to nearest, ties to even), which every
  arithmetic operation applies to its exact result. With \<open>a\<close> the magnitude of the exact
  result, the unit in the last place is \<open>2 ^ e\<close> for \<open>e = floorLog2 a - 52\<close>, and
  \<open>2 ^ (-1074)\<close> in the subnormal range; \<open>a\<close> is rounded to the multiple \<open>m * 2 ^ e\<close> of it.
  The result overflows to an infinity when it reaches \<open>2 ^ 1024\<close>: when \<open>e\<close> is above 971, or
  is 971 with \<open>m\<close> rounded up to \<open>2 ^ 53\<close>.
\<close>

definition toDouble :: "rat \<Rightarrow> jsnum" where
  "toDouble x =
     (if x = 0 then Fin 0
      else
        (let a = \<bar>x\<bar>;
             e = max (floorLog2 a - 52) (- 1074);
             m = roundHalfEven (a / 2 powi e)
         in if 971 < e \<or> (e = 971 \<and> 2 ^ 53 \<le> m) then (if 0 < x then PosInf else NegInf)
            else Fin (sgn x * (of_int m * 2 powi e))))"

text \<open>\<^verbatim>\<open>Number.isFinite(v)\<close>.\<close>

definition isFinite :: "jsnum \<Rightarrow> bool" where
  "isFinite v = (case v of Fin q \<Rightarrow> True | _ \<Rightarrow> False)"

text \<open>\<^verbatim>\<open>v < w\<close>: false as soon as one side is \<open>NaN\<close>.\<close>

fun js_less :: "jsnum \<Rightarrow> jsnum \<Rightarrow> bool" where
  "js_less NaN w = False"
| "js_less v NaN = False"
| "js_less (Fin p) (Fin q) = (p < q)"
| "js_less (Fin p) PosInf = True"
| "js_less (Fin p) NegInf = False"
| "js_less PosInf w = False"
| "js_less NegInf NegInf = False"
| "js_less NegInf w = True"

fun js_neg :: "jsnum \<Rightarrow> jsnum" where
  "js_neg (Fin q) = Fin (- q)"
| "js_neg PosInf = NegInf"
| "js_neg NegInf = PosInf"
| "js_neg NaN = NaN"

text \<open>\<^verbatim>\<open>v + w\<close> and \<^verbatim>\<open>v - w\<close>: the exact sum, rounded.\<close>

fun js_add :: "jsnum \<Rightarrow> jsnum \<Rightarrow> jsnum" where
  "js_add NaN w = NaN"
| "js_add v NaN = NaN"
| "js_add (Fin p) (Fin q) = toDouble (p + q)"
| "js_add (Fin p) w = w"
| "js_add PosInf NegInf = NaN"
| "js_add NegInf PosInf = NaN"
| "js_add v w = v"

definition js_sub :: "jsnum \<Rightarrow> jsnum \<Rightarrow> jsnum" where
  "js_sub v w = js_add v (js_neg w)"

text \<open>
  \<^verbatim>\<open>v * w\<close> and \<^verbatim>\<open>v / w\<close>: the exact product and quotient, rounded; an infinity times
  zero and zero by zero are \<open>NaN\<close>.
\<close>

definition infOfSign :: "rat \<Rightarrow> jsnum" where
  "infOfSign s = (if s = 0 then NaN else if 0 < s then PosInf else NegInf)"

fun js_mul :: "jsnum \<Rightarrow> jsnum \<Rightarrow> jsnum" where
  "js_mul NaN w = NaN"
| "js_mul v NaN = NaN"
| "js_mul (Fin p) (Fin q) = toDouble (p * q)"
| "js_mul (Fin p) PosInf = infOfSign p"
| "js_mul (Fin p) NegInf = infOfSign (- p)"
| "js_mul PosInf (Fin q) = infOfSign q"
| "js_mul NegInf (Fin q) = infOfSign (- q)"
| "js_mul PosInf PosInf = PosInf"
| "js_mul NegInf NegInf = PosInf"
| "js_mul PosInf NegInf = NegInf"
| "js_mul NegInf PosInf = NegInf"

fun js_div :: "jsnum \<Rightarrow> jsnum \<Rightarrow> jsnum" where
  "js_div NaN w = NaN"
| "js_div v NaN = NaN"
| "js_div (Fin p) (Fin q) = (if q = 0 then infOfSign p else toDouble (p / q))"
| "js_div (Fin p) w = Fin 0"
| "js_div PosInf (Fin q) = (if q < 0 then NegInf else PosInf)"
| "js_div NegInf (Fin q) = (if q < 0 then PosInf else NegInf)"
| "js_div v w = NaN"

text \<open>\<^verbatim>\<open>Math.min(v, w)\<close>: \<open>NaN\<close> as soon as one argument is.\<close>

fun mathMin :: "jsnum \<Rightarrow> jsnum \<Rightarrow> jsnum" where
  "mathMin NaN w = NaN"
| "mathMin v NaN = NaN"
| "mathMin NegInf w = NegInf"
| "mathMin v NegInf = NegInf"
| "mathMin PosInf w = w"
| "mathMin v PosInf = v"
| "mathMin (Fin p) (Fin q) = Fin (min p q)"

text \<open>
  \<^verbatim>\<open>Math.round(v)\<close>: the nearest integer, a half rounded up. The result is exact: it is a
  binary64 value whenever \<open>v\<close> is.
\<close>

fun mathRound :: "jsnum \<Rightarrow> jsnum" where
  "mathRound (Fin q) = Fin (of_int \<lfloor>q + 1 / 2\<rfloor>)"
| "mathRound v = v"

text \<open>
  \<^verbatim>\<open>v.toString(radix)\<close> for an integral \<open>v\<close> and a radix from 2 to 36, the only use the
  program makes of it (on the result of \<^verbatim>\<open>Math.round\<close>, with radix 16); the digits after
  the point of a value that is not integral are not modelled.
\<close>

definition digitChar :: "nat \<Rightarrow> char" where
  "digitChar d = ''0123456789abcdefghijklmnopqrstuvwxyz'' ! d"

function natToString :: "nat \<Rightarrow> nat \<Rightarrow> string" where
  "natToString radix n =
     (if radix < 2 \<or> n < radix then [digitChar n]
      else natToString radix (n div radix) @ [digitChar (n mod radix)])"
  by pat_completeness auto
termination
  by (relation "measure (\<lambda>(radix, n). n)") auto

definition toStringRadix :: "nat \<Rightarrow> jsnum \<Rightarrow> string" where
  "toStringRadix radix v =
     (case v of
        NaN \<Rightarrow> ''NaN''
      | PosInf \<Rightarrow> ''Infinity''
      | NegInf \<Rightarrow> ''-Infinity''
      | Fin q \<Rightarrow>
          (if q < 0 then ''-'' @ natToString radix (nat \<lfloor>- q\<rfloor>)
           else natToString radix (nat \<lfloor>q\<rfloor>)))"

section \<open>Values\<close>

text \<open>
  A value of type \<^verbatim>\<open>unknown\<close>, as the fields of \<^verbatim>\<open>node.style\<close> and the additional
  properties of a node are typed. An object or array is carried with the string that
  \<^verbatim>\<open>String\<close> gives for it.
\<close>

datatype jsval = JUndefined | JNull | JBool bool | JNum jsnum | JStr string | JObj string

text \<open>The condition of \<^verbatim>\<open>if (v)\<close> and of \<^verbatim>\<open>v || w\<close>.\<close>

definition truthy :: "jsval \<Rightarrow> bool" where
  "truthy v =
     (case v of
        JUndefined \<Rightarrow> False
      | JNull \<Rightarrow> False
      | JBool b \<Rightarrow> b
      | JNum n \<Rightarrow> n \<noteq> Fin 0 \<and> n \<noteq> NaN
      | JStr s \<Rightarrow> s \<noteq> []
      | JObj s \<Rightarrow> True)"

definition jsOr :: "jsval \<Rightarrow> jsval \<Rightarrow> jsval" where
  "jsOr v w = (if truthy v then v else w)"

text \<open>
  \<^verbatim>\<open>String(v)\<close>, also the conversion of a template literal. The conversion of a number to
  its decimal string is a parameter \<open>numStr\<close> of the model: every property proved below
  holds whatever this conversion is.
\<close>

definition jsString :: "(jsnum \<Rightarrow> string) \<Rightarrow> jsval \<Rightarrow> string" where
  "jsString numStr v =
     (case v of
        JUndefined \<Rightarrow> ''undefined''
      | JNull \<Rightarrow> ''null''
      | JBool b \<Rightarrow> (if b then ''true'' else ''false'')
      | JNum n \<Rightarrow> numStr n
      | JStr s \<Rightarrow> s
      | JObj s \<Rightarrow> s)"

text \<open>\<^verbatim>\<open>typeof value === 'number' ? value : undefined\<close> (\<^verbatim>\<open>toNumber\<close> of \<^verbatim>\<open>styles.ts\<close>).\<close>

definition toNumber :: "jsval \<Rightarrow> jsnum option" where
  "toNumber v = (case v of JNum n \<Rightarrow> Some n | _ \<Rightarrow> None)"

section \<open>Nodes\<close>

text \<open>
  The interfaces of \<^verbatim>\<open>src/api.ts\<close>. An optional field is an \<^typ>\<open>'a option\<close>.
  \<^verbatim>\<open>FigmaNode\<close> is an open record (\<^verbatim>\<open>[key: string]: unknown\<close>): the properties beyond the
  declared ones (\<^verbatim>\<open>paddingTop\<close>, \<^verbatim>\<open>layoutMode\<close>, \<^verbatim>\<open>itemSpacing\<close>, \<^verbatim>\<open>opacity\<close>, ...) are the
  association list \<open>props\<close>, and \<^verbatim>\<open>style\<close> is an association list as well; the first entry
  of a key counts.
\<close>

record rgba =
  color_r :: jsnum
  color_g :: jsnum
  color_b :: jsnum
  color_a :: "jsnum option"

record FigmaFill =
  fill_type :: string
  fill_color :: "rgba option"
  fill_opacity :: "jsnum option"

record FigmaEffect =
  effect_type :: string
  effect_visible :: bool
  effect_radius :: "jsnum option"
  effect_color :: "rgba option"
  effect_offset :: "(jsnum \<times> jsnum) option"

record BoundingBox =
  box_x :: jsnum
  box_y :: jsnum
  box_width :: jsnum
  box_height :: jsnum

record NodeFields =
  node_id :: string
  node_name :: string
  node_type :: string
  fills :: "FigmaFill list option"
  strokes :: "FigmaFill list option"
  effects :: "FigmaEffect list option"
  style :: "(string \<times> jsval) list option"
  absoluteBoundingBox :: "BoundingBox option"
  characters :: "string option"
  props :: "(string \<times> jsval) list"

datatype FigmaNode = FigmaNode (nodeFields: NodeFields) (children: "FigmaNode list option")

text \<open>\<^verbatim>\<open>(node as Record<string, unknown>)[key]\<close>.\<close>

definition nodeProp :: "FigmaNode \<Rightarrow> string \<Rightarrow> jsval" where
  "nodeProp node key = (case map_of (props (nodeFields node)) key of None \<Rightarrow> JUndefined | Some v \<Rightarrow> v)"

text \<open>\<^verbatim>\<open>typeof rec[key] === 'string' ? rec[key] : undefined\<close>.\<close>

definition propString :: "FigmaNode \<Rightarrow> string \<Rightarrow> string option" where
  "propString node key = (case nodeProp node key of JStr s \<Rightarrow> Some s | _ \<Rightarrow> None)"

text \<open>\<^verbatim>\<open>((node.style as Record<string, unknown> | undefined) ?? {})[key]\<close>.\<close>

definition styleField :: "FigmaNode \<Rightarrow> string \<Rightarrow> jsval" where
  "styleField node key =
     (case style (nodeFields node) of
        None \<Rightarrow> JUndefined
      | Some entries \<Rightarrow> (case map_of entries key of None \<Rightarrow> JUndefined | Some v \<Rightarrow> v))"

section \<open>Node utilities: \<^verbatim>\<open>src/utils/nodes.ts\<close>\<close>

text \<open>
  \<^verbatim>\<open>export function normalizeNodeId(nodeId: string): string {
    return nodeId.trim().replace(/-/g, ':');
  }\<close>
  The diff and audit commands hold copies of this function.
\<close>

definition normalizeNodeId :: "string \<Rightarrow> string" where
  "normalizeNodeId nodeId = replaceDashes (trim nodeId)"

text \<open>
  \<^verbatim>\<open>findNodePath\<close> (lines 41 to 65). The inner function \<^verbatim>\<open>walk\<close> first computes
  \<^verbatim>\<open>currentPage\<close> (the node itself when its type is \<^verbatim>\<open>CANVAS\<close>, else the page received),
  then returns the node when its normalized id is the target, and otherwise tries the
  children in order, with the node appended to the ancestors, the node as parent and
  \<^verbatim>\<open>currentPage\<close> as page; \<^verbatim>\<open>walkChildren\<close> is its \<^verbatim>\<open>for\<close> loop, which returns the first
  result that is not \<^verbatim>\<open>null\<close>. \<open>None\<close> is \<^verbatim>\<open>null\<close>.
\<close>

record NodePathResult =
  path_node :: FigmaNode
  path_parent :: "FigmaNode option"
  path_ancestors :: "FigmaNode list"
  path_page :: "FigmaNode option"

fun walk :: "string \<Rightarrow> FigmaNode \<Rightarrow> FigmaNode list \<Rightarrow> FigmaNode option \<Rightarrow> FigmaNode option
    \<Rightarrow> NodePathResult option"
  and walkChildren :: "string \<Rightarrow> FigmaNode list \<Rightarrow> FigmaNode list \<Rightarrow> FigmaNode \<Rightarrow> FigmaNode option
    \<Rightarrow> NodePathResult option" where
  "walk targetId (FigmaNode f cs) ancestors parent page =
     (let node = FigmaNode f cs;
          currentPage = (if node_type f = ''CANVAS'' then Some node else page)
      in if normalizeNodeId (node_id f) = targetId
         then Some \<lparr>path_node = node, path_parent = parent, path_ancestors = ancestors,
                    path_page = currentPage\<rparr>
         else (case cs of
                 None \<Rightarrow> None
               | Some l \<Rightarrow> walkChildren targetId l (ancestors @ [node]) node currentPage))"
| "walkChildren targetId [] ancestors parent page = None"
| "walkChildren targetId (child # rest) ancestors parent page =
     (case walk targetId child ancestors (Some parent) page of
        Some result \<Rightarrow> Some result
      | None \<Rightarrow> walkChildren targetId rest ancestors parent page)"

definition findNodePath :: "FigmaNode \<Rightarrow> string \<Rightarrow> NodePathResult option" where
  "findNodePath rootNode nodeId =
     (let targetId = normalizeNodeId nodeId in walk targetId rootNode [] None None)"

text \<open>
  \<^verbatim>\<open>toTree\<close> (lines 84 to 96). The depth is an integer: the tree command passes
  \<^verbatim>\<open>Math.floor\<close> of a positive finite option, or 3.
  \<^verbatim>\<open>const nextDepth = depth - 1;
  const children = nextDepth > 0 && Array.isArray(node.children)
    ? node.children.map((child) => toTree(child, nextDepth))
    : [];
  return { id: normalizeNodeId(node.id), name: node.name, type: node.type, children };\<close>
\<close>

datatype TreeNode = TreeNode (tree_id: string) (tree_name: string) (tree_type: string)
  (tree_children: "TreeNode list")

fun toTree :: "FigmaNode \<Rightarrow> int \<Rightarrow> TreeNode" where
  "toTree (FigmaNode f cs) depth =
     (let nextDepth = depth - 1;
          children = (if nextDepth > 0
             then (case cs of Some l \<Rightarrow> map (\<lambda>child. toTree child nextDepth) l | None \<Rightarrow> [])
             else [])
      in TreeNode (normalizeNodeId (node_id f)) (node_name f) (node_type f) children)"

section \<open>Export scale: \<^verbatim>\<open>src/commands/export.ts\<close>\<close>

text \<open>
  \<^verbatim>\<open>export function resolveExportScale(scaleOption?: number, retina?: boolean): number {
    const scale = scaleOption ?? (retina ? 3 : 2);
    if (!Number.isFinite(scale) || scale < 1 || scale > 4) {
      throw new Error('Scale must be between 1 and 4.');
    }
    return scale;
  }\<close>
  An argument left out is \<open>None\<close>; the exception is the left summand of the result.
\<close>

datatype error = Error string

definition resolveExportScale :: "jsnum option \<Rightarrow> bool option \<Rightarrow> error + jsnum" where
  "resolveExportScale scaleOption retina =
     (let scale = (case scaleOption of
                     Some s \<Rightarrow> s
                   | None \<Rightarrow> (if retina = Some True then Fin 3 else Fin 2))
      in if \<not> isFinite scale \<or> js_less scale (Fin 1) \<or> js_less (Fin 4) scale
         then Inl (Error ''Scale must be between 1 and 4.'')
         else Inr scale)"

section \<open>Style derivation: \<^verbatim>\<open>src/commands/styles.ts\<close>\<close>

subsection \<open>Colors\<close>

text \<open>
  \<^verbatim>\<open>toHex(r, g, b, a = 1)\<close> (lines 35 to 39): with
  \<^verbatim>\<open>toByteHex = (n) => Math.round(n * 255).toString(16).padStart(2, '0')\<close>, the string
  \<open>base\<close> is \<^verbatim>\<open>#\<close> followed by the bytes of \<open>r\<close>, \<open>g\<close> and \<open>b\<close>, and the result is
  \<open>base\<close> followed by the byte of \<open>a\<close> when \<^verbatim>\<open>a < 1\<close>, else \<open>base\<close>.
  \<^verbatim>\<open>diff.ts\<close> defines the same function under the same name (lines 31 to 35). Every call
  passes the alpha.
\<close>

definition toByteHex :: "jsnum \<Rightarrow> string" where
  "toByteHex n = padStart 2 CHR ''0'' (toStringRadix 16 (mathRound (js_mul n (Fin 255))))"

definition toHex :: "jsnum \<Rightarrow> jsnum \<Rightarrow> jsnum \<Rightarrow> jsnum \<Rightarrow> string" where
  "toHex r g b a =
     (let base = ''#'' @ toByteHex r @ toByteHex g @ toByteHex b
      in if js_less a (Fin 1) then base @ toByteHex a else base)"

text \<open>
  \<^verbatim>\<open>typeof fill.opacity === 'number' ? fill.opacity : fill.color.a ?? 1\<close>, the alpha of
  \<^verbatim>\<open>colorFromFill\<close> here and of \<^verbatim>\<open>firstSolidFillColor\<close> in \<^verbatim>\<open>diff.ts\<close>.
\<close>

definition fillAlpha :: "FigmaFill \<Rightarrow> rgba \<Rightarrow> jsnum" where
  "fillAlpha fill color =
     (case fill_opacity fill of
        Some opacity \<Rightarrow> opacity
      | None \<Rightarrow> (case color_a color of Some a \<Rightarrow> a | None \<Rightarrow> Fin 1))"

text \<open>
  \<^verbatim>\<open>colorFromFill\<close> returns \<^verbatim>\<open>undefined\<close> for a fill that is not solid or has no color;
  \<^verbatim>\<open>firstSolidFill\<close> and \<^verbatim>\<open>firstSolidStroke\<close> return the first color that is truthy, over
  \<^verbatim>\<open>node.fills\<close> and \<^verbatim>\<open>node.strokes\<close> (the empty list when the field is no array).
\<close>

definition colorFromFill :: "FigmaFill \<Rightarrow> string option" where
  "colorFromFill fill =
     (case fill_color fill of
        None \<Rightarrow> None
      | Some color \<Rightarrow>
          if fill_type fill \<noteq> ''SOLID'' then None
          else Some (toHex (color_r color) (color_g color) (color_b color) (fillAlpha fill color)))"

fun firstColor :: "FigmaFill list \<Rightarrow> string option" where
  "firstColor [] = None"
| "firstColor (fill # rest) =
     (case colorFromFill fill of
        Some color \<Rightarrow> if color \<noteq> [] then Some color else firstColor rest
      | None \<Rightarrow> firstColor rest)"

definition firstSolidFill :: "FigmaNode \<Rightarrow> string option" where
  "firstSolidFill node =
     firstColor (case fills (nodeFields node) of None \<Rightarrow> [] | Some fs \<Rightarrow> fs)"

definition firstSolidStroke :: "FigmaNode \<Rightarrow> string option" where
  "firstSolidStroke node =
     firstColor (case strokes (nodeFields node) of None \<Rightarrow> [] | Some fs \<Rightarrow> fs)"

text \<open>
  \<^verbatim>\<open>boxShadowFromEffects\<close>: the visible drop shadows, each as its x offset, y offset and
  blur radius (0 when absent) with the suffix \<^verbatim>\<open>px\<close> and its color, separated by spaces,
  joined by a comma and a space; \<^verbatim>\<open>undefined\<close> when there is none.
\<close>

definition shadowString :: "(jsnum \<Rightarrow> string) \<Rightarrow> FigmaEffect \<Rightarrow> string" where
  "shadowString numStr effect =
     (let x = (case effect_offset effect of Some (ox, oy) \<Rightarrow> ox | None \<Rightarrow> Fin 0);
          y = (case effect_offset effect of Some (ox, oy) \<Rightarrow> oy | None \<Rightarrow> Fin 0);
          blur = (case effect_radius effect of Some radius \<Rightarrow> radius | None \<Rightarrow> Fin 0);
          color = (case effect_color effect of
                     Some c \<Rightarrow>
                       toHex (color_r c) (color_g c) (color_b c)
                         (case color_a c of Some a \<Rightarrow> a | None \<Rightarrow> Fin 1)
                   | None \<Rightarrow> ''#00000033'')
      in numStr x @ ''px '' @ numStr y @ ''px '' @ numStr blur @ ''px '' @ color)"

definition boxShadowFromEffects :: "(jsnum \<Rightarrow> string) \<Rightarrow> FigmaEffect list option \<Rightarrow> string option" where
  "boxShadowFromEffects numStr effectList =
     (case effectList of
        None \<Rightarrow> None
      | Some es \<Rightarrow>
          (let shadows =
                 map (shadowString numStr)
                   (filter (\<lambda>effect. effect_visible effect \<and> effect_type effect = ''DROP_SHADOW'') es)
           in if length shadows = 0 then None else Some (joinWith '', '' shadows)))"

text \<open>\<^verbatim>\<open>numberPx\<close>: the number followed by \<^verbatim>\<open>px\<close>, \<^verbatim>\<open>undefined\<close> for any other value.\<close>

definition numberPx :: "(jsnum \<Rightarrow> string) \<Rightarrow> jsval \<Rightarrow> string option" where
  "numberPx numStr v = (case v of JNum n \<Rightarrow> Some (numStr n @ ''px'') | _ \<Rightarrow> None)"

subsection \<open>Padding inference\<close>

text \<open>
  \<^verbatim>\<open>inferPaddingFromChildren\<close> (lines 92 to 155). An edge that is \<^verbatim>\<open>undefined\<close> or left
  out of the result is \<open>None\<close>.
\<close>

datatype PaddingSource = SrcExplicit | SrcInferred | SrcNone

record PaddingValues =
  pad_top :: "jsnum option"
  pad_right :: "jsnum option"
  pad_bottom :: "jsnum option"
  pad_left :: "jsnum option"
  pad_source :: PaddingSource

text \<open>\<^verbatim>\<open>{ source: 'none' }\<close>.\<close>

definition noPadding :: PaddingValues where
  "noPadding = \<lparr>pad_top = None, pad_right = None, pad_bottom = None, pad_left = None,
                 pad_source = SrcNone\<rparr>"

text \<open>
  The loop of lines 131 to 141 over the bounding boxes of \<^verbatim>\<open>boundedChildren\<close>, on the four
  running minima, which start at \<^verbatim>\<open>Number.POSITIVE_INFINITY\<close>.
\<close>

fun minLoop :: "BoundingBox \<Rightarrow> BoundingBox list \<Rightarrow> jsnum \<times> jsnum \<times> jsnum \<times> jsnum
    \<Rightarrow> jsnum \<times> jsnum \<times> jsnum \<times> jsnum" where
  "minLoop parentBounds [] mins = mins"
| "minLoop parentBounds (bounds # rest) (minTop, minRight, minBottom, minLeft) =
     (let top = js_sub (box_y bounds) (box_y parentBounds);
          left = js_sub (box_x bounds) (box_x parentBounds);
          right = js_sub (js_add (box_x parentBounds) (box_width parentBounds))
                    (js_add (box_x bounds) (box_width bounds));
          bottom = js_sub (js_add (box_y parentBounds) (box_height parentBounds))
                     (js_add (box_y bounds) (box_height bounds))
      in minLoop parentBounds rest
           (mathMin minTop top, mathMin minRight right, mathMin minBottom bottom,
            mathMin minLeft left))"

text \<open>
  \<^verbatim>\<open>child.absoluteBoundingBox!\<close> is read from the members of \<^verbatim>\<open>boundedChildren\<close> only, which
  all have a bounding box: \<^const>\<open>the\<close> is applied to no \<open>None\<close>.
\<close>

definition inferPaddingFromChildren :: "FigmaNode \<Rightarrow> PaddingValues" where
  "inferPaddingFromChildren node =
     (let explicit_top = toNumber (nodeProp node ''paddingTop'');
          explicit_right = toNumber (nodeProp node ''paddingRight'');
          explicit_bottom = toNumber (nodeProp node ''paddingBottom'');
          explicit_left = toNumber (nodeProp node ''paddingLeft'')
      in if explicit_top \<noteq> None \<or> explicit_right \<noteq> None \<or> explicit_bottom \<noteq> None \<or>
            explicit_left \<noteq> None
         then \<lparr>pad_top = explicit_top, pad_right = explicit_right, pad_bottom = explicit_bottom,
               pad_left = explicit_left, pad_source = SrcExplicit\<rparr>
         else
           (case absoluteBoundingBox (nodeFields node) of
              None \<Rightarrow> noPadding
            | Some parentBounds \<Rightarrow>
                (case children node of
                   None \<Rightarrow> noPadding
                 | Some kids \<Rightarrow>
                     if length kids = 0 then noPadding
                     else
                       (let boundedChildren =
                              filter (\<lambda>child. absoluteBoundingBox (nodeFields child) \<noteq> None) kids
                        in if length boundedChildren = 0 then noPadding
                           else
                             (case minLoop parentBounds
                                     (map (\<lambda>child. the (absoluteBoundingBox (nodeFields child)))
                                        boundedChildren)
                                     (PosInf, PosInf, PosInf, PosInf) of
                                (minTop, minRight, minBottom, minLeft) \<Rightarrow>
                                  if list_ex (\<lambda>value. \<not> isFinite value \<or> js_less value (Fin 0))
                                       [minTop, minRight, minBottom, minLeft]
                                  then noPadding
                                  else
                                    \<lparr>pad_top = Some (js_div (mathRound (js_mul minTop (Fin 100))) (Fin 100)),
                                     pad_right = Some (js_div (mathRound (js_mul minRight (Fin 100))) (Fin 100)),
                                     pad_bottom = Some (js_div (mathRound (js_mul minBottom (Fin 100))) (Fin 100)),
                                     pad_left = Some (js_div (mathRound (js_mul minLeft (Fin 100))) (Fin 100)),
                                     pad_source = SrcInferred\<rparr>)))))"

subsection \<open>The CSS map\<close>

text \<open>
  The CSS map is a \<^verbatim>\<open>Record<string, string>\<close>: an association list in the order in which
  the keys were first assigned. \<open>setProperty\<close> is the assignment \<^verbatim>\<open>css[key] = v\<close>,
  \<open>setWhen\<close> the assignment under an \<^verbatim>\<open>if\<close>.
\<close>

fun setProperty :: "string \<Rightarrow> string \<Rightarrow> (string \<times> string) list \<Rightarrow> (string \<times> string) list" where
  "setProperty key v [] = [(key, v)]"
| "setProperty key v ((k, w) # rest) =
     (if k = key then (key, v) # rest else (k, w) # setProperty key v rest)"

definition setWhen :: "bool \<Rightarrow> string \<Rightarrow> string \<Rightarrow> (string \<times> string) list \<Rightarrow> (string \<times> string) list" where
  "setWhen cond key v css = (if cond then setProperty key v css else css)"

text \<open>The condition \<^verbatim>\<open>if (s)\<close> on a string that may be \<^verbatim>\<open>undefined\<close>.\<close>

definition stringTruthy :: "string option \<Rightarrow> bool" where
  "stringTruthy s = (case s of None \<Rightarrow> False | Some t \<Rightarrow> t \<noteq> [])"

text \<open>\<^verbatim>\<open>v ?? 0\<close>.\<close>

definition orZero :: "jsnum option \<Rightarrow> jsnum" where
  "orZero v = (case v of None \<Rightarrow> Fin 0 | Some n \<Rightarrow> n)"

text \<open>
  \<^verbatim>\<open>buildStyleDetails\<close> (lines 157 to 233) assigns to \<^verbatim>\<open>css\<close> in six blocks, modelled one
  by one, each taking the map built so far: the fill and stroke colors (lines 167 to 175),
  the typography fields (lines 177 to 182), each under the condition that the field is
  truthy (\<^verbatim>\<open>if (style.fontFamily)\<close> and so on): \<^verbatim>\<open>font-family\<close> and \<^verbatim>\<open>font-weight\<close> are
  \<^verbatim>\<open>String\<close> of the field, \<^verbatim>\<open>font-size\<close>, \<^verbatim>\<open>line-height\<close> (from \<^verbatim>\<open>lineHeightPx\<close>) and
  \<^verbatim>\<open>letter-spacing\<close> are the template literal of the field followed by \<^verbatim>\<open>px\<close>, and
  \<^verbatim>\<open>text-align\<close> is \<^verbatim>\<open>String(style.textAlignHorizontal).toLowerCase()\<close>; the
  width and height of the bounding box (lines 184 to 187), the auto-layout mode and the gap
  (lines 189 to 196), the padding (lines 198 to 205), and the corner radius, the opacity and
  the box shadow (lines 207 to 216). In a block, \<^const>\<open>the\<close> is applied to a string that the
  condition beside it has found present.
\<close>

definition fillStrokeCss :: "FigmaNode \<Rightarrow> (string \<times> string) list \<Rightarrow> (string \<times> string) list" where
  "fillStrokeCss node acc =
     (let css = acc;
          background = firstSolidFill node;
          stroke = firstSolidStroke node;
          css = (if node_type (nodeFields node) = ''TEXT'' \<and> stringTruthy background
                 then setProperty ''color'' (the background) css
                 else if stringTruthy background
                 then setProperty ''background-color'' (the background) css
                 else css);
          css = setWhen (stringTruthy stroke) ''border-color'' (the stroke) css
      in setWhen (stringTruthy stroke) ''border-style'' ''solid'' css)"

definition typographyCss :: "(jsnum \<Rightarrow> string) \<Rightarrow> FigmaNode \<Rightarrow> (string \<times> string) list
    \<Rightarrow> (string \<times> string) list" where
  "typographyCss numStr node acc =
     (let css = acc;
          css = setWhen (truthy (styleField node ''fontFamily'')) ''font-family''
                  (jsString numStr (styleField node ''fontFamily'')) css;
          css = setWhen (truthy (styleField node ''fontSize'')) ''font-size''
                  (jsString numStr (styleField node ''fontSize'') @ ''px'') css;
          css = setWhen (truthy (styleField node ''fontWeight'')) ''font-weight''
                  (jsString numStr (styleField node ''fontWeight'')) css;
          css = setWhen (truthy (styleField node ''lineHeightPx'')) ''line-height''
                  (jsString numStr (styleField node ''lineHeightPx'') @ ''px'') css;
          css = setWhen (truthy (styleField node ''letterSpacing'')) ''letter-spacing''
                  (jsString numStr (styleField node ''letterSpacing'') @ ''px'') css
      in setWhen (truthy (styleField node ''textAlignHorizontal'')) ''text-align''
           (toLowerCase (jsString numStr (styleField node ''textAlignHorizontal''))) css)"

definition boxCss :: "(jsnum \<Rightarrow> string) \<Rightarrow> FigmaNode \<Rightarrow> (string \<times> string) list
    \<Rightarrow> (string \<times> string) list" where
  "boxCss numStr node acc =
     (case absoluteBoundingBox (nodeFields node) of
        Some box \<Rightarrow>
          setProperty ''height'' (numStr (box_height box) @ ''px'')
            (setProperty ''width'' (numStr (box_width box) @ ''px'') acc)
      | None \<Rightarrow> acc)"

definition autoLayoutCss :: "(jsnum \<Rightarrow> string) \<Rightarrow> FigmaNode \<Rightarrow> (string \<times> string) list
    \<Rightarrow> (string \<times> string) list" where
  "autoLayoutCss numStr node acc =
     (let css = acc;
          layoutMode = jsString numStr (jsOr (nodeProp node ''layoutMode'') (JStr []));
          css = (if layoutMode = ''HORIZONTAL'' \<or> layoutMode = ''VERTICAL''
                 then setProperty ''flex-direction''
                        (if layoutMode = ''VERTICAL'' then ''column'' else ''row'')
                        (setProperty ''display'' ''flex'' css)
                 else css);
          itemSpacing = numberPx numStr (nodeProp node ''itemSpacing'')
      in setWhen (stringTruthy itemSpacing) ''gap'' (the itemSpacing) css)"

definition paddingCss :: "(jsnum \<Rightarrow> string) \<Rightarrow> PaddingValues \<Rightarrow> (string \<times> string) list
    \<Rightarrow> (string \<times> string) list" where
  "paddingCss numStr padding acc =
     setWhen (pad_top padding \<noteq> None \<or> pad_right padding \<noteq> None \<or>
              pad_bottom padding \<noteq> None \<or> pad_left padding \<noteq> None) ''padding''
       (numStr (orZero (pad_top padding)) @ ''px '' @
        numStr (orZero (pad_right padding)) @ ''px '' @
        numStr (orZero (pad_bottom padding)) @ ''px '' @
        numStr (orZero (pad_left padding)) @ ''px'') acc"

definition decorationCss :: "(jsnum \<Rightarrow> string) \<Rightarrow> FigmaNode \<Rightarrow> (string \<times> string) list
    \<Rightarrow> (string \<times> string) list" where
  "decorationCss numStr node acc =
     (let css = acc;
          boxShadow = boxShadowFromEffects numStr (effects (nodeFields node));
          cornerRadius = numberPx numStr (nodeProp node ''cornerRadius'');
          css = setWhen (stringTruthy cornerRadius) ''border-radius'' (the cornerRadius) css;
          css = (case nodeProp node ''opacity'' of
                   JNum opacity \<Rightarrow> setProperty ''opacity'' (numStr opacity) css
                 | _ \<Rightarrow> css)
      in setWhen (stringTruthy boxShadow) ''box-shadow'' (the boxShadow) css)"

record StyleLayout =
  layout_mode :: "string option"
  layout_itemSpacing :: "jsnum option"
  layout_primaryAxisAlignItems :: "string option"
  layout_counterAxisAlignItems :: "string option"
  layout_layoutWrap :: "string option"
  layout_layoutSizingHorizontal :: "string option"
  layout_layoutSizingVertical :: "string option"
  layout_padding :: PaddingValues

record NodeStyleDetails =
  css :: "(string \<times> string) list"
  layout :: StyleLayout
  details_absoluteBoundingBox :: "BoundingBox option"
  rawStyle :: "(string \<times> jsval) list"

definition buildStyleDetails :: "(jsnum \<Rightarrow> string) \<Rightarrow> FigmaNode \<Rightarrow> NodeStyleDetails" where
  "buildStyleDetails numStr node =
     (let padding = inferPaddingFromChildren node;
          css = fillStrokeCss node [];
          css = typographyCss numStr node css;
          css = boxCss numStr node css;
          css = autoLayoutCss numStr node css;
          css = paddingCss numStr padding css;
          css = decorationCss numStr node css
      in \<lparr>css = css,
          layout =
            \<lparr>layout_mode = propString node ''layoutMode'',
             layout_itemSpacing = toNumber (nodeProp node ''itemSpacing''),
             layout_primaryAxisAlignItems = propString node ''primaryAxisAlignItems'',
             layout_counterAxisAlignItems = propString node ''counterAxisAlignItems'',
             layout_layoutWrap = propString node ''layoutWrap'',
             layout_layoutSizingHorizontal = propString node ''layoutSizingHorizontal'',
             layout_layoutSizingVertical = propString node ''layoutSizingVertical'',
             layout_padding = padding\<rparr>,
          details_absoluteBoundingBox = absoluteBoundingBox (nodeFields node),
          rawStyle = (case style (nodeFields node) of None \<Rightarrow> [] | Some entries \<Rightarrow> entries)\<rparr>)"

section \<open>Snapshots and their diff: \<^verbatim>\<open>src/commands/diff.ts\<close>\<close>

text \<open>
  \<^verbatim>\<open>styleSignature\<close> (lines 37 to 45): \<^verbatim>\<open>null\<close> for a node that is no text node, else
  family, weight, size and line height, each \<^verbatim>\<open>String(style.field || default)\<close>, joined
  by vertical bars.
\<close>

definition styleSignature :: "(jsnum \<Rightarrow> string) \<Rightarrow> FigmaNode \<Rightarrow> string option" where
  "styleSignature numStr node =
     (if node_type (nodeFields node) \<noteq> ''TEXT'' then None
      else
        (let family = jsString numStr (jsOr (styleField node ''fontFamily'') (JStr ''Unknown''));
             weight = jsString numStr (jsOr (styleField node ''fontWeight'') (JStr []));
             size = jsString numStr (jsOr (styleField node ''fontSize'') (JStr []));
             lineHeight = jsString numStr (jsOr (styleField node ''lineHeightPx'') (JStr []))
         in Some (family @ ''|'' @ weight @ ''|'' @ size @ ''|'' @ lineHeight)))"

text \<open>
  \<^verbatim>\<open>firstSolidFillColor\<close> (lines 47 to 56): the color of the first fill that is solid and
  has a color; \<^verbatim>\<open>null\<close> when the fills are no array or hold no such fill.
\<close>

fun firstSolidFillColorLoop :: "FigmaFill list \<Rightarrow> string option" where
  "firstSolidFillColorLoop [] = None"
| "firstSolidFillColorLoop (fill # rest) =
     (case (fill_type fill = ''SOLID'', fill_color fill) of
        (True, Some color) \<Rightarrow>
          Some (toHex (color_r color) (color_g color) (color_b color) (fillAlpha fill color))
      | _ \<Rightarrow> firstSolidFillColorLoop rest)"

definition firstSolidFillColor :: "FigmaNode \<Rightarrow> string option" where
  "firstSolidFillColor node =
     (case fills (nodeFields node) of None \<Rightarrow> None | Some fs \<Rightarrow> firstSolidFillColorLoop fs)"

text \<open>
  \<^verbatim>\<open>traverse(node, fn)\<close> (lines 58 to 64) calls \<^verbatim>\<open>fn\<close> on the node, then traverses the
  children in order. The callback updates variables of its closure: here it takes their
  state and returns the new one.
\<close>

fun traverse :: "FigmaNode \<Rightarrow> (FigmaNode \<Rightarrow> 's \<Rightarrow> 's) \<Rightarrow> 's \<Rightarrow> 's" where
  "traverse (FigmaNode f cs) fn st =
     (case cs of
        None \<Rightarrow> fn (FigmaNode f cs) st
      | Some l \<Rightarrow> fold (\<lambda>child. traverse child fn) l (fn (FigmaNode f cs) st))"

text \<open>
  A \<^verbatim>\<open>Set\<close> of strings, in insertion order: \<^verbatim>\<open>set.add(x)\<close> appends \<open>x\<close> unless it is a
  member.
\<close>

definition setAdd :: "'a \<Rightarrow> 'a list \<Rightarrow> 'a list" where
  "setAdd x xs = (if x \<in> set xs then xs else xs @ [x])"

text \<open>
  \<^verbatim>\<open>snapshot\<close> (lines 66 to 102). The state of the traversal is \<^verbatim>\<open>textParts\<close>,
  \<^verbatim>\<open>textStyles\<close> and \<^verbatim>\<open>fillColors\<close>; the callback is \<open>snapshotVisit\<close>.
\<close>

record SnapshotState =
  textParts :: "string list"
  textStylesSet :: "string list"
  fillColorsSet :: "string list"

definition snapshotVisit :: "(jsnum \<Rightarrow> string) \<Rightarrow> FigmaNode \<Rightarrow> SnapshotState \<Rightarrow> SnapshotState" where
  "snapshotVisit numStr item st =
     (let st = (if node_type (nodeFields item) = ''TEXT''
                then (let text = trim (case characters (nodeFields item) of
                                         None \<Rightarrow> []
                                       | Some s \<Rightarrow> s)
                      in if text \<noteq> [] then st\<lparr>textParts := textParts st @ [text]\<rparr> else st)
                else st);
          st = (case styleSignature numStr item of
                  Some sig \<Rightarrow> if sig \<noteq> [] then st\<lparr>textStylesSet := setAdd sig (textStylesSet st)\<rparr>
                              else st
                | None \<Rightarrow> st)
      in (case firstSolidFillColor item of
            Some fill \<Rightarrow> if fill \<noteq> [] then st\<lparr>fillColorsSet := setAdd fill (fillColorsSet st)\<rparr>
                         else st
          | None \<Rightarrow> st))"

record NodeSnapshot =
  snap_id :: string
  snap_name :: string
  snap_type :: string
  snap_width :: "jsnum option"
  snap_height :: "jsnum option"
  snap_layoutMode :: "string option"
  snap_itemSpacing :: "jsnum option"
  snap_paddingTop :: "jsnum option"
  snap_paddingRight :: "jsnum option"
  snap_paddingBottom :: "jsnum option"
  snap_paddingLeft :: "jsnum option"
  childCount :: nat
  textContent :: string
  textStyles :: "string list"
  fillColors :: "string list"

definition snapshot :: "(jsnum \<Rightarrow> string) \<Rightarrow> FigmaNode \<Rightarrow> NodeSnapshot" where
  "snapshot numStr node =
     (let st = traverse node (snapshotVisit numStr)
                 \<lparr>textParts = [], textStylesSet = [], fillColorsSet = []\<rparr>
      in \<lparr>snap_id = node_id (nodeFields node),
          snap_name = node_name (nodeFields node),
          snap_type = node_type (nodeFields node),
          snap_width = map_option box_width (absoluteBoundingBox (nodeFields node)),
          snap_height = map_option box_height (absoluteBoundingBox (nodeFields node)),
          snap_layoutMode = propString node ''layoutMode'',
          snap_itemSpacing = toNumber (nodeProp node ''itemSpacing''),
          snap_paddingTop = toNumber (nodeProp node ''paddingTop''),
          snap_paddingRight = toNumber (nodeProp node ''paddingRight''),
          snap_paddingBottom = toNumber (nodeProp node ''paddingBottom''),
          snap_paddingLeft = toNumber (nodeProp node ''paddingLeft''),
          childCount = (case children node of None \<Rightarrow> 0 | Some l \<Rightarrow> length l),
          textContent = joinWith [CHR 0x0A] (textParts st),
          textStyles = sort (textStylesSet st),
          fillColors = sort (fillColorsSet st)\<rparr>)"

text \<open>
  \<^verbatim>\<open>function arrayDiff(before: string[], after: string[]) {
    const beforeSet = new Set(before);
    const afterSet = new Set(after);
    const added = after.filter((item) => !beforeSet.has(item));
    const removed = before.filter((item) => !afterSet.has(item));
    return { added, removed };
  }\<close>
\<close>

record ArrayDiff =
  added :: "string list"
  removed :: "string list"

definition arrayDiff :: "string list \<Rightarrow> string list \<Rightarrow> ArrayDiff" where
  "arrayDiff before after =
     \<lparr>added = filter (\<lambda>item. item \<notin> set before) after,
      removed = filter (\<lambda>item. item \<notin> set after) before\<rparr>"

text \<open>
  \<^verbatim>\<open>buildDiff\<close> (lines 112 to 150). A layout value is a number, a string or
  \<^verbatim>\<open>undefined\<close>; the layout diff holds, in the order of \<^verbatim>\<open>layoutKeys\<close>, the keys whose
  two values differ by \<^verbatim>\<open>!==\<close>, for which \<open>NaN\<close> differs from itself.
\<close>

datatype LayoutValue = LUndefined | LNumber jsnum | LString string

definition strictNotEqual :: "LayoutValue \<Rightarrow> LayoutValue \<Rightarrow> bool" where
  "strictNotEqual v w =
     (case (v, w) of
        (LNumber x, LNumber y) \<Rightarrow> x \<noteq> y \<or> x = NaN
      | _ \<Rightarrow> v \<noteq> w)"

definition layoutNumber :: "jsnum option \<Rightarrow> LayoutValue" where
  "layoutNumber v = (case v of None \<Rightarrow> LUndefined | Some n \<Rightarrow> LNumber n)"

definition layoutKeys :: "string list" where
  "layoutKeys = [''width'', ''height'', ''layoutMode'', ''itemSpacing'', ''paddingTop'',
                 ''paddingRight'', ''paddingBottom'', ''paddingLeft'', ''childCount'']"

text \<open>\<^verbatim>\<open>a[key]\<close> for a snapshot \<open>a\<close> and a layout key.\<close>

definition snapshotField :: "NodeSnapshot \<Rightarrow> string \<Rightarrow> LayoutValue" where
  "snapshotField s key =
     (if key = ''width'' then layoutNumber (snap_width s)
      else if key = ''height'' then layoutNumber (snap_height s)
      else if key = ''layoutMode''
        then (case snap_layoutMode s of None \<Rightarrow> LUndefined | Some m \<Rightarrow> LString m)
      else if key = ''itemSpacing'' then layoutNumber (snap_itemSpacing s)
      else if key = ''paddingTop'' then layoutNumber (snap_paddingTop s)
      else if key = ''paddingRight'' then layoutNumber (snap_paddingRight s)
      else if key = ''paddingBottom'' then layoutNumber (snap_paddingBottom s)
      else if key = ''paddingLeft'' then layoutNumber (snap_paddingLeft s)
      else if key = ''childCount'' then LNumber (Fin (of_nat (childCount s)))
      else LUndefined)"

record NodeIdent =
  ident_id :: string
  ident_name :: string
  ident_type :: string

record DiffText =
  changed :: bool
  aLength :: nat
  bLength :: nat
  aPreview :: string
  bPreview :: string

record DiffStyles =
  textStylesAddedInB :: "string list"
  textStylesRemovedFromA :: "string list"
  fillColorsAddedInB :: "string list"
  fillColorsRemovedFromA :: "string list"

record DiffResult =
  diff_a :: NodeIdent
  diff_b :: NodeIdent
  diff_text :: DiffText
  diff_styles :: DiffStyles
  diff_layout :: "(string \<times> LayoutValue \<times> LayoutValue) list"

definition buildDiff :: "NodeSnapshot \<Rightarrow> NodeSnapshot \<Rightarrow> DiffResult" where
  "buildDiff a b =
     (let layoutDiff =
            map (\<lambda>key. (key, snapshotField a key, snapshotField b key))
              (filter (\<lambda>key. strictNotEqual (snapshotField a key) (snapshotField b key))
                 layoutKeys);
          textChanged = (textContent a \<noteq> textContent b);
          textPreviewA = take 180 (textContent a);
          textPreviewB = take 180 (textContent b);
          textStylesDiff = arrayDiff (textStyles a) (textStyles b);
          fillColorsDiff = arrayDiff (fillColors a) (fillColors b)
      in \<lparr>diff_a = \<lparr>ident_id = snap_id a, ident_name = snap_name a, ident_type = snap_type a\<rparr>,
          diff_b = \<lparr>ident_id = snap_id b, ident_name = snap_name b, ident_type = snap_type b\<rparr>,
          diff_text = \<lparr>changed = textChanged, aLength = length (textContent a),
                        bLength = length (textContent b), aPreview = textPreviewA,
                        bPreview = textPreviewB\<rparr>,
          diff_styles = \<lparr>textStylesAddedInB = added textStylesDiff,
                          textStylesRemovedFromA = removed textStylesDiff,
                          fillColorsAddedInB = added fillColorsDiff,
                          fillColorsRemovedFromA = removed fillColorsDiff\<rparr>,
          diff_layout = layoutDiff\<rparr>)"

section \<open>The audit command\<close>

text \<open>
  \<^verbatim>\<open>traverseNodes(node, callback)\<close> (lines 236 to 243) calls the callback on the node, then
  traverses the children in order, as \<^verbatim>\<open>traverse\<close> of \<^verbatim>\<open>diff.ts\<close> does.
\<close>

fun traverseNodes :: "FigmaNode \<Rightarrow> (FigmaNode \<Rightarrow> 's \<Rightarrow> 's) \<Rightarrow> 's \<Rightarrow> 's" where
  "traverseNodes (FigmaNode f cs) callback st =
     (case cs of
        None \<Rightarrow> callback (FigmaNode f cs) st
      | Some l \<Rightarrow> fold (\<lambda>child. traverseNodes child callback) l (callback (FigmaNode f cs) st))"

text \<open>
  \<^verbatim>\<open>function rgbaToHex(r: number, g: number, b: number, a: number): string\<close> (lines 245 to
  248): \<^verbatim>\<open>#\<close> followed by the bytes of \<open>r\<close>, \<open>g\<close> and \<open>b\<close>, each computed as
  \<^verbatim>\<open>toByteHex\<close> computes it; the argument \<open>a\<close> is not used.
\<close>

definition rgbaToHex :: "jsnum \<Rightarrow> jsnum \<Rightarrow> jsnum \<Rightarrow> jsnum \<Rightarrow> string" where
  "rgbaToHex r g b a = ''#'' @ toByteHex r @ toByteHex g @ toByteHex b"

text \<open>
  The colors of the audit (lines 96, 103 and 121 to 129): the set \<^verbatim>\<open>colors\<close> after the
  traversal of the audited subtree. At each node, every fill that is solid and has a color
  adds \<^verbatim>\<open>rgbaToHex(fill.color.r, fill.color.g, fill.color.b, fill.color.a ?? 1)\<close>. The
  other statements of the callback do not touch \<^verbatim>\<open>colors\<close>. \<open>uniqueColors\<close> is
  \<^verbatim>\<open>colors.size\<close>.
\<close>

fun auditFillColors :: "FigmaFill list \<Rightarrow> string list \<Rightarrow> string list" where
  "auditFillColors [] colors = colors"
| "auditFillColors (fill # rest) colors =
     auditFillColors rest
       (case (fill_type fill = ''SOLID'', fill_color fill) of
          (True, Some color) \<Rightarrow>
            setAdd (rgbaToHex (color_r color) (color_g color) (color_b color)
                      (case color_a color of Some a \<Rightarrow> a | None \<Rightarrow> Fin 1))
              colors
        | _ \<Rightarrow> colors)"

definition auditVisitColors :: "FigmaNode \<Rightarrow> string list \<Rightarrow> string list" where
  "auditVisitColors node colors =
     (case fills (nodeFields node) of None \<Rightarrow> colors | Some fs \<Rightarrow> auditFillColors fs colors)"

definition auditColors :: "FigmaNode \<Rightarrow> string list" where
  "auditColors auditRoot = traverseNodes auditRoot auditVisitColors []"

definition uniqueColors :: "FigmaNode \<Rightarrow> nat" where
  "uniqueColors auditRoot = length (auditColors auditRoot)"

text \<open>
  The score (lines 153 to 226), as a function of the sizes and counts that these lines read:
  \<^verbatim>\<open>colors.size\<close>, \<^verbatim>\<open>fonts.size\<close>, \<^verbatim>\<open>fontSizes.size\<close>, \<^verbatim>\<open>result.stats.totalNodes\<close>,
  \<^verbatim>\<open>result.stats.componentInstances\<close>, \<^verbatim>\<open>result.stats.components\<close>,
  \<^verbatim>\<open>unstyledNodes.length\<close> and the number of keys of \<^verbatim>\<open>file.styles\<close>. Each rule is an
  \<^verbatim>\<open>if\<close> that pushes an issue and lowers the score; \<open>deduct\<close> is one such rule. An issue
  is kept with its severity and the fixed part of its message. The ratio test
  \<^verbatim>\<open>componentRatio < 0.1\<close> is computed on rationals: for counts below \<open>2 ^ 53\<close> the floating
  point quotient is below the floating point 0.1 exactly when the exact quotient is below a
  tenth.
\<close>

record AuditCounts =
  colorsSize :: nat
  fontsSize :: nat
  fontSizesSize :: nat
  totalNodes :: nat
  componentInstances :: nat
  components :: nat
  unstyledNodesLength :: nat
  definedStylesCount :: nat

datatype Severity = SevError | SevWarning | SevInfo

record AuditResult =
  score :: int
  issues :: "(Severity \<times> string) list"

definition deduct :: "bool \<Rightarrow> Severity \<Rightarrow> string \<Rightarrow> int \<Rightarrow> AuditResult \<Rightarrow> AuditResult" where
  "deduct cond severity message amount result =
     (if cond
      then result\<lparr>issues := issues result @ [(severity, message)], score := score result - amount\<rparr>
      else result)"

definition auditIssues :: "AuditCounts \<Rightarrow> AuditResult" where
  "auditIssues c =
     (let result = \<lparr>score = 100, issues = []\<rparr>;
          result = deduct (colorsSize c > 20) SevWarning ''High color count'' 10 result;
          result = deduct (fontsSize c > 3) SevWarning ''Too many font families'' 10 result;
          result = deduct (fontSizesSize c > 10) SevInfo ''Many font sizes'' 5 result;
          componentRatio = (of_nat (componentInstances c) :: rat) / of_nat (max (totalNodes c) 1);
          result = deduct (componentRatio < 1 / 10 \<and> totalNodes c > 50) SevWarning
                     ''Low component usage'' 10 result;
          result = deduct (unstyledNodesLength c > 10) SevInfo ''elements without styles'' 5 result;
          result = deduct (components c = 0 \<and> totalNodes c > 20) SevWarning
                     ''No components defined'' 15 result;
          result = deduct (definedStylesCount c = 0 \<and> totalNodes c > 10) SevWarning
                     ''No styles defined in file'' 10 result
      in result\<lparr>score := max 0 (score result)\<rparr>)"

definition auditScore :: "AuditCounts \<Rightarrow> int" where
  "auditScore c = score (auditIssues c)"

chapter \<open>Notions for the properties\<close>

section \<open>Strings and trees\<close>

text \<open>A string is trimmed when neither end is white space.\<close>

definition trimmed :: "string \<Rightarrow> bool" where
  "trimmed s \<longleftrightarrow> s = [] \<or> (\<not> isWhiteSpace (hd s) \<and> \<not> isWhiteSpace (last s))"

definition isDigit :: "char \<Rightarrow> bool" where
  "isDigit c \<longleftrightarrow> c \<in> set ''0123456789''"

text \<open>The children of a node, none when the field is absent.\<close>

definition childList :: "FigmaNode list option \<Rightarrow> FigmaNode list" where
  "childList cs = (case cs of None \<Rightarrow> [] | Some l \<Rightarrow> l)"

text \<open>The nodes of a tree in pre-order.\<close>

fun preorder :: "FigmaNode \<Rightarrow> FigmaNode list" where
  "preorder (FigmaNode f cs) =
     FigmaNode f cs # (case cs of None \<Rightarrow> [] | Some l \<Rightarrow> concat (map preorder l))"

text \<open>
  The nodes of a tree in pre-order, each with its ancestors: the nodes from the root down to
  its parent, in that order.
\<close>

fun paths :: "FigmaNode \<Rightarrow> (FigmaNode list \<times> FigmaNode) list" where
  "paths (FigmaNode f cs) =
     ([], FigmaNode f cs) #
     (case cs of
        None \<Rightarrow> []
      | Some l \<Rightarrow> concat (map (\<lambda>c. map (\<lambda>(a, m). (FigmaNode f cs # a, m)) (paths c)) l))"

text \<open>A list of nodes is a chain when each node but the first is a child of the one before.\<close>

fun isChain :: "FigmaNode list \<Rightarrow> bool" where
  "isChain [] = True"
| "isChain [n] = True"
| "isChain (n # m # rest) = (m \<in> set (childList (children n)) \<and> isChain (m # rest))"

definition isCanvas :: "FigmaNode \<Rightarrow> bool" where
  "isCanvas n \<longleftrightarrow> node_type (nodeFields n) = ''CANVAS''"

text \<open>The last canvas of a list of nodes: on a path from the root, the nearest one.\<close>

definition nearestCanvas :: "FigmaNode list \<Rightarrow> FigmaNode option" where
  "nearestCanvas ns = (case rev (filter isCanvas ns) of [] \<Rightarrow> None | c # _ \<Rightarrow> Some c)"

definition matchesId :: "string \<Rightarrow> FigmaNode \<Rightarrow> bool" where
  "matchesId nodeId n \<longleftrightarrow> normalizeNodeId (node_id (nodeFields n)) = normalizeNodeId nodeId"

text \<open>
  The result for a node and its ancestors: the parent is the last ancestor, the page the
  nearest canvas among the ancestors and the node itself.
\<close>

definition pathResult :: "FigmaNode list \<times> FigmaNode \<Rightarrow> NodePathResult" where
  "pathResult p = (case p of (a, m) \<Rightarrow>
     \<lparr>path_node = m, path_parent = (if a = [] then None else Some (last a)),
      path_ancestors = a, path_page = nearestCanvas (a @ [m])\<rparr>)"

text \<open>
  The same for a walk that starts below the root, with the ancestors, parent and page it
  was given.
\<close>

definition stepPage :: "FigmaNode \<Rightarrow> FigmaNode option \<Rightarrow> FigmaNode option" where
  "stepPage n page = (if node_type (nodeFields n) = ''CANVAS'' then Some n else page)"

definition walkResult :: "FigmaNode option \<Rightarrow> FigmaNode list \<Rightarrow> FigmaNode option
    \<Rightarrow> FigmaNode list \<times> FigmaNode \<Rightarrow> NodePathResult" where
  "walkResult par anc page p = (case p of (a, m) \<Rightarrow>
     \<lparr>path_node = m, path_parent = (if a = [] then par else Some (last a)),
      path_ancestors = anc @ a, path_page = fold stepPage (a @ [m]) page\<rparr>)"

text \<open>The ids of a projected tree in pre-order, and its height.\<close>

fun treeIds :: "TreeNode \<Rightarrow> string list" where
  "treeIds (TreeNode i n t ts) = i # concat (map treeIds ts)"

fun treeHeight :: "TreeNode \<Rightarrow> nat" where
  "treeHeight (TreeNode i n t ts) = Suc (fold max (map treeHeight ts) 0)"

text \<open>The nodes of a tree that a projection to a depth visits, in pre-order.\<close>

fun projected :: "FigmaNode \<Rightarrow> int \<Rightarrow> FigmaNode list" where
  "projected (FigmaNode f cs) depth =
     FigmaNode f cs #
     (if depth - 1 > 0
      then (case cs of None \<Rightarrow> [] | Some l \<Rightarrow> concat (map (\<lambda>c. projected c (depth - 1)) l))
      else [])"

section \<open>Padding\<close>







text \<open>
  A finite number rounded to two decimal places in floating-point arithmetic: the value
  nearest to \<open>k / 100\<close>, for the integer \<open>k\<close> nearest (a half going up) to the rounded
  product of the number by 100. The product of a number above \<open>2 ^ 1024 / 100\<close> is an
  infinity, and stays one.
\<close>

definition roundTo2 :: "jsnum \<Rightarrow> jsnum" where
  "roundTo2 v =
     (case v of
        Fin q \<Rightarrow> (case toDouble (q * 100) of Fin d \<Rightarrow> toDouble (of_int \<lfloor>d + 1 / 2\<rfloor> / 100) | w \<Rightarrow> w)
      | _ \<Rightarrow> v)"


section \<open>Audit, colors and styles\<close>

text \<open>The sum of the deductions of the audit.\<close>

definition deductions :: "AuditCounts \<Rightarrow> int" where
  "deductions c =
     (if 20 < colorsSize c then 10 else 0) +
     (if 3 < fontsSize c then 10 else 0) +
     (if 10 < fontSizesSize c then 5 else 0) +
     (if 10 * componentInstances c < totalNodes c \<and> 50 < totalNodes c then 10 else 0) +
     (if 10 < unstyledNodesLength c then 5 else 0) +
     (if components c = 0 \<and> 20 < totalNodes c then 15 else 0) +
     (if definedStylesCount c = 0 \<and> 10 < totalNodes c then 10 else 0)"

text \<open>A tree with the opacity of every fill and the alpha of every fill color removed.\<close>

definition eraseFillAlpha :: "FigmaFill \<Rightarrow> FigmaFill" where
  "eraseFillAlpha fill =
     fill\<lparr>fill_opacity := None,
          fill_color := map_option (\<lambda>color. color\<lparr>color_a := None\<rparr>) (fill_color fill)\<rparr>"

fun eraseAlpha :: "FigmaNode \<Rightarrow> FigmaNode" where
  "eraseAlpha (FigmaNode f cs) =
     FigmaNode (f\<lparr>fills := map_option (map eraseFillAlpha) (fills f)\<rparr>)
       (map_option (map eraseAlpha) cs)"

text \<open>
  The fills of a node, the color of a fill that is solid and has one, and the colors of
  the solid fills of a node and of a tree, in the order of the traversal.
\<close>

definition fillList :: "FigmaNode \<Rightarrow> FigmaFill list" where
  "fillList node = (case fills (nodeFields node) of None \<Rightarrow> [] | Some fs \<Rightarrow> fs)"

definition solidColor :: "FigmaFill \<Rightarrow> rgba option" where
  "solidColor fill = (if fill_type fill = ''SOLID'' then fill_color fill else None)"

definition solidColors :: "FigmaNode \<Rightarrow> rgba list" where
  "solidColors node = List.map_filter solidColor (fillList node)"

definition treeColors :: "FigmaNode \<Rightarrow> rgba list" where
  "treeColors n = concat (map solidColors (preorder n))"

text \<open>The six digits of a color: its red, green and blue bytes after \<^verbatim>\<open>#\<close>.\<close>

definition sixDigits :: "rgba \<Rightarrow> string" where
  "sixDigits col = ''#'' @ toByteHex (color_r col) @ toByteHex (color_g col) @ toByteHex (color_b col)"

text \<open>
  The first fill of a list that is solid and has a color, and the string of the diff for a
  fill: that of its color with its effective alpha, if it is solid and has a color.
\<close>

definition firstSolid :: "FigmaFill list \<Rightarrow> FigmaFill option" where
  "firstSolid fs = List.find (\<lambda>fill. solidColor fill \<noteq> None) fs"

definition diffColor :: "FigmaFill \<Rightarrow> string option" where
  "diffColor fill =
     map_option
       (\<lambda>col. toHex (color_r col) (color_g col) (color_b col) (fillAlpha fill col))
       (solidColor fill)"

text \<open>The entry of a key in the CSS map of the style details.\<close>

definition cssValue :: "NodeStyleDetails \<Rightarrow> string \<Rightarrow> string option" where
  "cssValue details key = map_of (css details) key"

definition typographyKey :: "string \<Rightarrow> bool" where
  "typographyKey key \<longleftrightarrow>
     key \<in> set [''font-family'', ''font-size'', ''font-weight'', ''line-height'',
                ''letter-spacing'', ''text-align'']"

chapter \<open>Sample inputs\<close>

text \<open>A node with the three required fields and nothing else.\<close>

definition mkFields :: "string \<Rightarrow> string \<Rightarrow> string \<Rightarrow> NodeFields" where
  "mkFields i n t =
     \<lparr>node_id = i, node_name = n, node_type = t, fills = None, strokes = None, effects = None,
      style = None, absoluteBoundingBox = None, characters = None, props = []\<rparr>"

text \<open>The document of \<^verbatim>\<open>tests/nodes.test.mjs\<close>.\<close>

definition sampleTitle :: FigmaNode where
  "sampleTitle = FigmaNode ((mkFields ''3:1'' ''Title'' ''TEXT'')\<lparr>characters := Some ''hello''\<rparr>) None"

definition sampleFrame :: FigmaNode where
  "sampleFrame = FigmaNode (mkFields ''2:1'' ''Frame'' ''FRAME'') (Some [sampleTitle])"

definition samplePage :: FigmaNode where
  "samplePage = FigmaNode (mkFields ''1:1'' ''Page A'' ''CANVAS'') (Some [sampleFrame])"

definition sampleDocument :: FigmaNode where
  "sampleDocument = FigmaNode (mkFields ''0:0'' ''Document'' ''DOCUMENT'') (Some [samplePage])"

text \<open>A tree whose ids are written with dashes and white space.\<close>

definition dashedTree :: FigmaNode where
  "dashedTree =
     FigmaNode (mkFields '' 10-1 '' ''Root'' ''FRAME'')
       (Some [FigmaNode (mkFields ''10-2'' ''Leaf'' ''TEXT'') None])"

text \<open>The two cards of the style tests: one child inside its parent, and explicit padding.\<close>

definition cardFrame :: FigmaNode where
  "cardFrame =
     FigmaNode ((mkFields ''2:1'' ''Card'' ''FRAME'')
        \<lparr>absoluteBoundingBox :=
           Some \<lparr>box_x = Fin 0, box_y = Fin 0, box_width = Fin 100, box_height = Fin 100\<rparr>\<rparr>)
       (Some [FigmaNode ((mkFields ''2:2'' ''Content'' ''FRAME'')
          \<lparr>absoluteBoundingBox :=
             Some \<lparr>box_x = Fin 10, box_y = Fin 20, box_width = Fin 80, box_height = Fin 60\<rparr>\<rparr>)
          (Some [])])"

definition paddedCard :: FigmaNode where
  "paddedCard =
     FigmaNode ((mkFields ''1:1'' ''Card'' ''FRAME'')
        \<lparr>props := [(''paddingTop'', JNum (Fin 12)), (''paddingRight'', JNum (Fin 16)),
                   (''paddingBottom'', JNum (Fin 12)), (''paddingLeft'', JNum (Fin 16))]\<rparr>)
       (Some [])"




text \<open>Counts on which every rule of the audit fires.\<close>

definition busyFile :: AuditCounts where
  "busyFile = \<lparr>colorsSize = 21, fontsSize = 4, fontSizesSize = 11, totalNodes = 60,
                componentInstances = 5, components = 0, unstyledNodesLength = 11,
                definedStylesCount = 0\<rparr>"

text \<open>
  A conversion of numbers to strings for the samples: the decimal digits, which is what
  JavaScript gives for the integers the samples hold.
\<close>

definition decimalString :: "jsnum \<Rightarrow> string" where
  "decimalString = toStringRadix 10"

definition solidFill :: "rat \<Rightarrow> rat \<Rightarrow> rat \<Rightarrow> rat \<Rightarrow> FigmaFill" where
  "solidFill r g b a =
     \<lparr>fill_type = ''SOLID'',
      fill_color = Some \<lparr>color_r = Fin r, color_g = Fin g, color_b = Fin b, color_a = Some (Fin a)\<rparr>,
      fill_opacity = None\<rparr>"

definition textNode :: "string \<Rightarrow> string \<Rightarrow> rat \<Rightarrow> FigmaFill \<Rightarrow> FigmaNode" where
  "textNode i content weight fill =
     FigmaNode ((mkFields i ''Label'' ''TEXT'')
        \<lparr>fills := Some [fill],
         style := Some [(''fontFamily'', JStr ''Inter''), (''fontWeight'', JNum (Fin weight)),
                        (''fontSize'', JNum (Fin 16)), (''lineHeightPx'', JNum (Fin 24))],
         characters := Some content\<rparr>) None"

definition rectNode :: "string \<Rightarrow> FigmaFill \<Rightarrow> FigmaNode" where
  "rectNode i fill = FigmaNode ((mkFields i ''Box'' ''RECTANGLE'')\<lparr>fills := Some [fill]\<rparr>) None"

definition diffNodeA :: FigmaNode where
  "diffNodeA =
     FigmaNode (mkFields ''5:1'' ''A'' ''FRAME'')
       (Some [textNode ''5:2'' '' Save '' 400 (solidFill 1 0 0 1), rectNode ''5:3'' (solidFill 0 0 1 1)])"

definition diffNodeB :: FigmaNode where
  "diffNodeB =
     FigmaNode (mkFields ''6:1'' ''B'' ''FRAME'')
       (Some [textNode ''6:2'' ''Save all'' 700 (solidFill 1 0 0 1), rectNode ''6:3'' (solidFill 0 1 0 1)])"

text \<open>
  A red fill whose color is opaque and whose opacity is a quarter, and a rectangle with two
  red fills, the first opaque and the second of alpha a half.
\<close>

definition fadedFill :: FigmaFill where
  "fadedFill = (solidFill 1 0 0 1)\<lparr>fill_opacity := Some (Fin (1 / 4))\<rparr>"

definition stackedFills :: FigmaNode where
  "stackedFills =
     FigmaNode ((mkFields ''9:1'' ''Box'' ''RECTANGLE'')
        \<lparr>fills := Some [solidFill 1 0 0 1, solidFill 1 0 0 (1 / 2)]\<rparr>) None"

text \<open>A frame with two red rectangles of the given alphas.\<close>

definition twoAlphaFrame :: "rat \<Rightarrow> rat \<Rightarrow> FigmaNode" where
  "twoAlphaFrame a1 a2 =
     FigmaNode (mkFields ''7:1'' ''Swatches'' ''FRAME'')
       (Some [rectNode ''7:2'' (solidFill 1 0 0 a1), rectNode ''7:3'' (solidFill 1 0 0 a2)])"

text \<open>A text node with a letter spacing of 0 and an upper-case alignment.\<close>

definition zeroSpacingText :: FigmaNode where
  "zeroSpacingText =
     FigmaNode ((mkFields ''8:1'' ''Caption'' ''TEXT'')
        \<lparr>style := Some [(''fontSize'', JNum (Fin 16)), (''letterSpacing'', JNum (Fin 0)),
                        (''textAlignHorizontal'', JStr ''LEFT'')]\<rparr>) None"

chapter \<open>Properties\<close>

section \<open>Node-ID normalization\<close>

lemma dropWhile_hd_not: "dropWhile P xs \<noteq> [] \<Longrightarrow> \<not> P (hd (dropWhile P xs))"
  by (simp add: hd_dropWhile)

lemma trim_id: "trimmed s \<Longrightarrow> trim s = s"
proof (cases "s = []")
  case True
  then show ?thesis by (simp add: trim_def)
next
  case False
  assume "trimmed s"
  with False have h: "\<not> isWhiteSpace (hd s)" and l: "\<not> isWhiteSpace (last s)"
    by (simp_all add: trimmed_def)
  from False h have a: "dropWhile isWhiteSpace s = s"
    by (cases s) simp_all
  from False l have "\<not> isWhiteSpace (hd (rev s))"
    by (simp add: hd_rev)
  with False have "dropWhile isWhiteSpace (rev s) = rev s"
    by (cases "rev s") simp_all
  with a show ?thesis by (simp add: trim_def)
qed

lemma trimmed_trim: "trimmed (trim s)"
proof (cases "trim s = []")
  case True
  then show ?thesis by (simp add: trimmed_def)
next
  case False
  let ?a = "dropWhile isWhiteSpace s"
  let ?b = "dropWhile isWhiteSpace (rev ?a)"
  from False have b: "?b \<noteq> []" by (simp add: trim_def)
  have a: "?a \<noteq> []"
  proof
    assume "?a = []"
    then have "?b = []" by (simp only: rev.simps dropWhile.simps)
    with b show False ..
  qed
  have l: "\<not> isWhiteSpace (last (trim s))"
    using b dropWhile_hd_not [of isWhiteSpace "rev ?a"] by (simp add: trim_def last_rev)
  have "\<not> isWhiteSpace (hd ?a)"
    using a by (rule dropWhile_hd_not)
  moreover have "\<exists>ys. rev ?a = ys @ ?b"
    by (metis takeWhile_dropWhile_id)
  then obtain ys where "rev ?a = ys @ ?b" ..
  then have "?a = rev ?b @ rev ys"
    by (metis rev_append rev_rev_ident)
  with b have "hd ?a = hd (rev ?b)"
    by (metis hd_append2 rev_is_Nil_conv)
  ultimately have "\<not> isWhiteSpace (hd (trim s))" by (simp add: trim_def)
  with l show ?thesis by (simp add: trimmed_def)
qed

lemma trimmed_replaceDashes: "trimmed s \<Longrightarrow> trimmed (replaceDashes s)"
  by (cases "s = []")
    (auto simp add: trimmed_def replaceDashes_def hd_map last_map isWhiteSpace_def)

lemma replaceDashes_idem: "replaceDashes (replaceDashes s) = replaceDashes s"
  by (simp add: replaceDashes_def)

lemma replaceDashes_no_dash: "CHR ''-'' \<notin> set (replaceDashes s)"
  by (auto simp add: replaceDashes_def)

lemma trimmed_normalizeNodeId: "trimmed (normalizeNodeId s)"
  by (simp add: normalizeNodeId_def trimmed_replaceDashes trimmed_trim)

lemma normalizeNodeId_idem: "normalizeNodeId (normalizeNodeId s) = normalizeNodeId s"
proof -
  have "trim (normalizeNodeId s) = normalizeNodeId s"
    by (rule trim_id) (rule trimmed_normalizeNodeId)
  then show ?thesis
    by (simp add: normalizeNodeId_def replaceDashes_idem)
qed

lemma trim_surround:
  assumes "\<forall>c \<in> set ws1. isWhiteSpace c" and "\<forall>c \<in> set ws2. isWhiteSpace c" and "trimmed s"
  shows "trim (ws1 @ s @ ws2) = s"
proof (cases "s = []")
  case True
  have "\<forall>c \<in> set (ws1 @ ws2). isWhiteSpace c"
    using assms(1,2) by auto
  then have "dropWhile isWhiteSpace (ws1 @ ws2) = []"
    by (simp only: dropWhile_eq_Nil_conv)
  with True show ?thesis by (simp only: trim_def append_Nil rev.simps dropWhile.simps)
next
  case False
  with assms(3) have h: "\<not> isWhiteSpace (hd s)" and l: "\<not> isWhiteSpace (last s)"
    by (simp_all add: trimmed_def)
  from False h have "dropWhile isWhiteSpace (ws1 @ s @ ws2) = s @ ws2"
    using assms(1) by (cases s) (simp_all add: dropWhile_append3)
  moreover from False l have "dropWhile isWhiteSpace (rev ws2 @ rev s) = rev s"
    using assms(2) by (cases "rev s") (auto simp add: dropWhile_append3 last_rev hd_rev)
  ultimately show ?thesis by (simp add: trim_def)
qed

text \<open>
  C5. Normalizing twice is the same as normalizing once, for every string. A dash-separated
  identifier of two digit sequences, with any white space around it, is normalized to the two
  sequences joined by a colon; in particular \<^verbatim>\<open>normalizeNodeId("2070-20929")\<close> is
  \<^verbatim>\<open>"2070:20929"\<close>.
\<close>

theorem normalizeNodeId_idempotent_canonical:
  "normalizeNodeId (normalizeNodeId s) = normalizeNodeId s \<and>
   (p \<noteq> [] \<and> q \<noteq> [] \<and> (\<forall>c \<in> set p. isDigit c) \<and> (\<forall>c \<in> set q. isDigit c) \<and>
    (\<forall>c \<in> set ws1. isWhiteSpace c) \<and> (\<forall>c \<in> set ws2. isWhiteSpace c)
    \<longrightarrow> normalizeNodeId (ws1 @ p @ ''-'' @ q @ ws2) = p @ '':'' @ q) \<and>
   normalizeNodeId ''2070-20929'' = ''2070:20929''"
proof (intro conjI impI)
  show "normalizeNodeId (normalizeNodeId s) = normalizeNodeId s"
    by (rule normalizeNodeId_idem)
next
  assume "p \<noteq> [] \<and> q \<noteq> [] \<and> (\<forall>c \<in> set p. isDigit c) \<and> (\<forall>c \<in> set q. isDigit c) \<and>
    (\<forall>c \<in> set ws1. isWhiteSpace c) \<and> (\<forall>c \<in> set ws2. isWhiteSpace c)"
  then have p: "p \<noteq> []" and q: "q \<noteq> []"
    and dp: "\<forall>c \<in> set p. isDigit c" and dq: "\<forall>c \<in> set q. isDigit c"
    and w1: "\<forall>c \<in> set ws1. isWhiteSpace c" and w2: "\<forall>c \<in> set ws2. isWhiteSpace c"
    by simp_all
  have nd: "isDigit c \<Longrightarrow> \<not> isWhiteSpace c \<and> c \<noteq> CHR ''-''" for c
    by (auto simp add: isDigit_def isWhiteSpace_def)
  from p dp have "\<not> isWhiteSpace (hd p)" using nd by (cases p) auto
  moreover from q dq have "\<not> isWhiteSpace (last q)" using nd last_in_set by blast
  ultimately have t: "trimmed (p @ ''-'' @ q)"
    using p q by (simp add: trimmed_def)
  have "trim (ws1 @ (p @ ''-'' @ q) @ ws2) = p @ ''-'' @ q"
    using w1 w2 t by (rule trim_surround)
  moreover have "replaceDashes p = p" "replaceDashes q = q"
    using dp dq nd by (auto simp add: replaceDashes_def map_idI)
  ultimately show "normalizeNodeId (ws1 @ p @ ''-'' @ q @ ws2) = p @ '':'' @ q"
    by (simp add: normalizeNodeId_def replaceDashes_def)
next
  show "normalizeNodeId ''2070-20929'' = ''2070:20929''"
    by (simp add: normalizeNodeId_def replaceDashes_def trim_def isWhiteSpace_def)
qed

theorem normalizeNodeId_idempotent_canonical_witness:
  "normalizeNodeId ('' '' @ ''12'' @ ''-'' @ ''345'' @ [CHR 0x0A]) = ''12'' @ '':'' @ ''345''
   \<and> normalizeNodeId (normalizeNodeId '' 1-2-3 '') = normalizeNodeId '' 1-2-3 ''"
  using normalizeNodeId_idempotent_canonical [of "'' 1-2-3 ''" "''12''" "''345''" "'' ''" "[CHR 0x0A]"]
  by (simp add: isDigit_def isWhiteSpace_def)


section \<open>Path resolution\<close>

lemma find_map_comp: "find P (map g xs) = map_option g (find (P \<circ> g) xs)"
  by (induction xs) simp_all

lemma find_append_case:
  "find P (xs @ ys) = (case find P xs of Some x \<Rightarrow> Some x | None \<Rightarrow> find P ys)"
  by (induction xs) simp_all

lemma walkResult_step:
  "walkResult par anc page (n # a, m) = walkResult (Some n) (anc @ [n]) (stepPage n page) (a, m)"
  by (simp add: walkResult_def)

lemma walk_paths:
  "walk t n anc par page =
     map_option (walkResult par anc page) (find (\<lambda>p. normalizeNodeId (node_id (nodeFields (snd p))) = t) (paths n))"
  "walkChildren t l anc p page =
     map_option (walkResult (Some p) anc page)
       (find (\<lambda>p. normalizeNodeId (node_id (nodeFields (snd p))) = t) (concat (map paths l)))"
proof (induction t n anc par page and t l anc p page rule: walk_walkChildren.induct)
  case (1 targetId f cs ancestors parent page)
  let ?n = "FigmaNode f cs"
  let ?P = "\<lambda>p. normalizeNodeId (node_id (nodeFields (snd p))) = targetId"
  show ?case
  proof (cases "normalizeNodeId (node_id f) = targetId")
    case True
    then show ?thesis by (simp add: walkResult_def stepPage_def Let_def)
  next
    case False
    show ?thesis
    proof (cases cs)
      case None
      with False show ?thesis by (simp add: Let_def)
    next
      case (Some l)
      let ?g = "\<lambda>(a, m). (?n # a, m)"
      have c: "concat (map (\<lambda>c. map ?g (paths c)) l) = map ?g (concat (map paths l))"
        by (simp add: map_concat comp_def)
      have pg: "?P \<circ> ?g = ?P" by (auto simp add: fun_eq_iff)
      have "walk targetId ?n ancestors parent page
          = walkChildren targetId l (ancestors @ [?n]) ?n (stepPage ?n page)"
        using False Some by (simp add: stepPage_def Let_def)
      also have "\<dots> = map_option (walkResult (Some ?n) (ancestors @ [?n]) (stepPage ?n page))
          (find ?P (concat (map paths l)))"
        using "1.IH" [OF refl refl False Some] by (simp add: stepPage_def)
      also have "\<dots> = map_option (walkResult parent ancestors page)
          (find ?P (map ?g (concat (map paths l))))"
        by (simp add: find_map_comp pg option.map_comp comp_def split_def walkResult_step)
      also have "\<dots> = map_option (walkResult parent ancestors page) (find ?P (paths ?n))"
        using False Some c by simp
      finally show ?thesis .
    qed
  qed
next
  case (2 targetId ancestors parent page)
  show ?case by simp
next
  case (3 targetId child rest ancestors parent page)
  show ?case
  proof (cases "walk targetId child ancestors (Some parent) page")
    case None
    with 3 show ?thesis by (auto simp add: find_append_case split: option.splits)
  next
    case (Some r)
    with 3 show ?thesis by (auto simp add: find_append_case split: option.splits)
  qed
qed


lemma fold_stepPage:
  "fold stepPage ns page = (case rev (filter isCanvas ns) of [] \<Rightarrow> page | c # _ \<Rightarrow> Some c)"
  by (induction ns rule: rev_induct) (simp_all add: stepPage_def isCanvas_def)

lemma fold_stepPage_None: "fold stepPage ns None = nearestCanvas ns"
  by (simp only: fold_stepPage nearestCanvas_def)

lemma walkResult_top: "walkResult None [] None p = pathResult p"
  by (cases p) (simp only: walkResult_def pathResult_def fold_stepPage_None prod.case append_Nil)

lemma findNodePath_paths:
  "findNodePath rootNode nodeId =
     map_option pathResult (find (\<lambda>p. matchesId nodeId (snd p)) (paths rootNode))"
  by (simp add: findNodePath_def walk_paths(1) walkResult_top matchesId_def cong: option.map_cong)

lemma map_snd_paths: "map snd (paths n) = preorder n"
proof (induction n rule: preorder.induct)
  case (1 f cs)
  show ?case
  proof (cases cs)
    case None
    then show ?thesis by simp
  next
    case (Some l)
    have "map snd (map (\<lambda>(a, m). (FigmaNode f cs # a, m)) (paths c)) = preorder c"
      if "c \<in> set l" for c
      using "1.IH" [OF Some that] by (simp add: comp_def split_def)
    then show ?thesis using Some by (simp add: map_concat comp_def cong: map_cong)
  qed
qed

lemma paths_chain:
  "p \<in> set (paths n) \<Longrightarrow> hd (fst p @ [snd p]) = n \<and> isChain (fst p @ [snd p])"
proof (induction n arbitrary: p rule: paths.induct)
  case (1 f cs)
  show ?case
  proof (cases "p = ([], FigmaNode f cs)")
    case True
    then show ?thesis by simp
  next
    case False
    with "1.prems" obtain l c a m where cs: "cs = Some l" and c: "c \<in> set l"
      and q: "(a, m) \<in> set (paths c)" and p: "p = (FigmaNode f cs # a, m)"
      by (auto split: option.splits)
    from "1.IH" [OF cs c q] have h: "hd (a @ [m]) = c" and ch: "isChain (a @ [m])"
      by simp_all
    from h have "a @ [m] = c # tl (a @ [m])"
      by (metis append_is_Nil_conv list.collapse not_Cons_self2)
    with ch c cs have "isChain (FigmaNode f cs # a @ [m])"
      by (metis FigmaNode.sel(2) childList_def isChain.simps(3) option.simps(5))
    with p show ?thesis by simp
  qed
qed

lemma find_None_set: "(find P xs = None) = (\<forall>x \<in> set xs. \<not> P x)"
  by (induction xs) simp_all

text \<open>
  C2 (as amended). \<^const>\<open>paths\<close> lists every node of the tree in pre-order, each with the chain
  of nodes from the root down to its parent. \<^const>\<open>findNodePath\<close> returns the first entry of
  that list whose node has the target's normalized id: the node, its direct parent (the last
  of the chain, absent for the root), the chain itself, and the nearest canvas on the path
  from the root to the node, the node itself included (absent when the path holds no
  canvas). It returns \<open>None\<close> exactly when no node of the tree matches. On the sample
  document, \<^verbatim>\<open>"3-1"\<close> resolves to Title, with parent Frame, page Page A and ancestors
  Document, Page A, Frame in that order.
\<close>

theorem findNodePath_first_preorder_match:
  "findNodePath rootNode nodeId =
     map_option pathResult (find (\<lambda>p. matchesId nodeId (snd p)) (paths rootNode)) \<and>
   map snd (paths rootNode) = preorder rootNode \<and>
   (\<forall>p \<in> set (paths rootNode). hd (fst p @ [snd p]) = rootNode \<and> isChain (fst p @ [snd p])) \<and>
   ((findNodePath rootNode nodeId = None) = (\<forall>n \<in> set (preorder rootNode). \<not> matchesId nodeId n)) \<and>
   findNodePath sampleDocument ''3-1'' =
     Some \<lparr>path_node = sampleTitle, path_parent = Some sampleFrame,
           path_ancestors = [sampleDocument, samplePage, sampleFrame],
           path_page = Some samplePage\<rparr>"
proof (intro conjI)
  show "findNodePath rootNode nodeId =
     map_option pathResult (find (\<lambda>p. matchesId nodeId (snd p)) (paths rootNode))"
    by (rule findNodePath_paths)
  show "map snd (paths rootNode) = preorder rootNode"
    by (rule map_snd_paths)
  show "\<forall>p \<in> set (paths rootNode). hd (fst p @ [snd p]) = rootNode \<and> isChain (fst p @ [snd p])"
    using paths_chain by blast
  have "(findNodePath rootNode nodeId = None) =
      (\<forall>n \<in> set (map snd (paths rootNode)). \<not> matchesId nodeId n)"
    by (simp add: findNodePath_paths find_None_set)
  then show "(findNodePath rootNode nodeId = None) =
      (\<forall>n \<in> set (preorder rootNode). \<not> matchesId nodeId n)"
    by (simp only: map_snd_paths)
  show "findNodePath sampleDocument ''3-1'' =
     Some \<lparr>path_node = sampleTitle, path_parent = Some sampleFrame,
           path_ancestors = [sampleDocument, samplePage, sampleFrame],
           path_page = Some samplePage\<rparr>"
    by (simp add: findNodePath_def sampleDocument_def samplePage_def sampleFrame_def
        sampleTitle_def mkFields_def normalizeNodeId_def trim_def replaceDashes_def
        isWhiteSpace_def Let_def)
qed

theorem findNodePath_first_preorder_match_witness:
  "findNodePath sampleDocument '' 2-1'' =
     Some \<lparr>path_node = sampleFrame, path_parent = Some samplePage,
           path_ancestors = [sampleDocument, samplePage], path_page = Some samplePage\<rparr> \<and>
   findNodePath sampleDocument ''9:9'' = None"
  using findNodePath_first_preorder_match [of sampleDocument "'' 2-1''"]
    findNodePath_first_preorder_match [of sampleDocument "''9:9''"]
  by (simp add: sampleDocument_def samplePage_def sampleFrame_def
        sampleTitle_def mkFields_def normalizeNodeId_def trim_def replaceDashes_def
        isWhiteSpace_def matchesId_def pathResult_def nearestCanvas_def isCanvas_def)

text \<open>
  C2 as stated fails where the matched node is itself a canvas: resolving \<^verbatim>\<open>"1:1"\<close> on the
  sample document returns Page A as its own page, although its only ancestor, the document,
  is no canvas, so that no canvas ancestor exists.
\<close>

theorem findNodePath_page_of_canvas_is_itself:
  "findNodePath sampleDocument ''1:1'' =
     Some \<lparr>path_node = samplePage, path_parent = Some sampleDocument,
           path_ancestors = [sampleDocument], path_page = Some samplePage\<rparr> \<and>
   nearestCanvas [sampleDocument] = None"
  by (simp add: findNodePath_def sampleDocument_def samplePage_def sampleFrame_def
        sampleTitle_def mkFields_def normalizeNodeId_def trim_def replaceDashes_def
        isWhiteSpace_def Let_def nearestCanvas_def isCanvas_def)


section \<open>Tree projection\<close>

lemma toTree_fields:
  "tree_id (toTree n depth) = normalizeNodeId (node_id (nodeFields n))"
  "tree_name (toTree n depth) = node_name (nodeFields n)"
  "tree_type (toTree n depth) = node_type (nodeFields n)"
  by (cases n; simp add: Let_def)+

lemma toTree_children:
  "tree_children (toTree n depth) =
     (if depth - 1 > 0 then map (\<lambda>child. toTree child (depth - 1)) (childList (children n)) else [])"
  by (cases n) (simp add: Let_def childList_def split: option.splits)

lemma fold_max_le: "(\<forall>x \<in> set xs. x \<le> b) \<Longrightarrow> a \<le> b \<Longrightarrow> fold max xs a \<le> (b::nat)"
  by (induction xs arbitrary: a) simp_all

lemma treeHeight_toTree: "int (treeHeight (toTree n depth)) \<le> max 1 depth"
proof (induction n depth rule: toTree.induct)
  case (1 f cs depth)
  show ?case
  proof (cases "depth - 1 > 0")
    case False
    then show ?thesis by (simp add: Let_def)
  next
    case True
    show ?thesis
    proof (cases cs)
      case None
      then show ?thesis by (simp add: Let_def)
    next
      case (Some l)
      have "treeHeight (toTree c (depth - 1)) \<le> nat (depth - 1)" if "c \<in> set l" for c
        using "1.IH" [OF refl True Some that] True by simp
      then have "fold max (map (\<lambda>c. treeHeight (toTree c (depth - 1))) l) 0 \<le> nat (depth - 1)"
        by (intro fold_max_le) auto
      with True Some show ?thesis by (simp add: Let_def comp_def)
    qed
  qed
qed

text \<open>
  C6. For a positive depth, \<^const>\<open>toTree\<close> keeps the node's name and type and its normalized
  id; its children are the projections of the node's children at \<open>depth - 1\<close>, and there are
  none once \<open>depth - 1\<close> is zero, so that the result is never higher than \<open>depth\<close>. Depth 1
  gives the root alone, and the sample document at depth 2 gives Page A as the only child,
  without children of its own.
\<close>

theorem toTree_depth_bounded_projection:
  "0 < depth \<longrightarrow>
     tree_id (toTree n depth) = normalizeNodeId (node_id (nodeFields n)) \<and>
     tree_name (toTree n depth) = node_name (nodeFields n) \<and>
     tree_type (toTree n depth) = node_type (nodeFields n) \<and>
     tree_children (toTree n depth) =
       (if depth - 1 = 0 then []
        else map (\<lambda>child. toTree child (depth - 1)) (childList (children n))) \<and>
     int (treeHeight (toTree n depth)) \<le> depth \<and>
     tree_children (toTree n 1) = [] \<and>
     toTree sampleDocument 2 =
       TreeNode ''0:0'' ''Document'' ''DOCUMENT'' [TreeNode ''1:1'' ''Page A'' ''CANVAS'' []]"
proof (intro impI conjI)
  assume d: "0 < depth"
  show "tree_children (toTree n depth) =
       (if depth - 1 = 0 then []
        else map (\<lambda>child. toTree child (depth - 1)) (childList (children n)))"
    using d by (simp add: toTree_children)
  show "int (treeHeight (toTree n depth)) \<le> depth"
    using d treeHeight_toTree [of n depth] by simp
  show "tree_children (toTree n 1) = []"
    by (simp add: toTree_children)
  show "toTree sampleDocument 2 =
       TreeNode ''0:0'' ''Document'' ''DOCUMENT'' [TreeNode ''1:1'' ''Page A'' ''CANVAS'' []]"
    by (simp add: sampleDocument_def samplePage_def mkFields_def Let_def normalizeNodeId_def
        trim_def replaceDashes_def isWhiteSpace_def)
qed (simp_all add: toTree_fields)

theorem toTree_depth_bounded_projection_witness:
  "(0::int) < 3 \<and>
   toTree sampleDocument 3 =
     TreeNode ''0:0'' ''Document'' ''DOCUMENT''
       [TreeNode ''1:1'' ''Page A'' ''CANVAS'' [TreeNode ''2:1'' ''Frame'' ''FRAME'' []]]"
proof -
  have eq: "\<And>t. t = TreeNode (tree_id t) (tree_name t) (tree_type t) (tree_children t)"
    by simp
  have "toTree sampleDocument 3 = TreeNode (tree_id (toTree sampleDocument 3))
      (tree_name (toTree sampleDocument 3)) (tree_type (toTree sampleDocument 3))
      (tree_children (toTree sampleDocument 3))"
    by (rule eq)
  also have "\<dots> = TreeNode ''0:0'' ''Document'' ''DOCUMENT''
       [TreeNode ''1:1'' ''Page A'' ''CANVAS'' [TreeNode ''2:1'' ''Frame'' ''FRAME'' []]]"
    using toTree_depth_bounded_projection [of 3 sampleDocument]
    by (simp add: sampleDocument_def samplePage_def sampleFrame_def mkFields_def Let_def
        normalizeNodeId_def trim_def replaceDashes_def isWhiteSpace_def childList_def)
  finally show ?thesis by simp
qed

lemma treeIds_toTree:
  "treeIds (toTree n depth) = map (\<lambda>m. normalizeNodeId (node_id (nodeFields m))) (projected n depth)"
proof (induction n depth rule: toTree.induct)
  case (1 f cs depth)
  show ?case
  proof (cases "depth - 1 > 0")
    case False
    then show ?thesis by (simp add: Let_def)
  next
    case True
    show ?thesis
    proof (cases cs)
      case None
      then show ?thesis by (simp add: Let_def)
    next
      case (Some l)
      have "treeIds (toTree c (depth - 1)) =
          map (\<lambda>m. normalizeNodeId (node_id (nodeFields m))) (projected c (depth - 1))"
        if "c \<in> set l" for c
        using "1.IH" [OF refl True Some that] .
      with True Some show ?thesis
        by (simp add: Let_def comp_def map_concat cong: map_cong)
    qed
  qed
qed

lemma projected_subset: "set (projected n depth) \<subseteq> set (preorder n)"
proof (induction n depth rule: projected.induct)
  case (1 f cs depth)
  show ?case
  proof (cases "depth - 1 > 0")
    case False
    then have "projected (FigmaNode f cs) depth = [FigmaNode f cs]"
      by simp
    then show ?thesis by simp
  next
    case True
    show ?thesis
    proof (cases cs)
      case None
      then have "projected (FigmaNode f cs) depth = preorder (FigmaNode f cs)"
        by simp
      then show ?thesis by simp
    next
      case (Some l)
      have sub: "set (projected c (depth - 1)) \<subseteq> set (preorder c)" if "c \<in> set l" for c
        using "1.IH" [OF True Some that] .
      have p: "set (projected (FigmaNode f cs) depth) =
          insert (FigmaNode f cs) (\<Union>c \<in> set l. set (projected c (depth - 1)))"
        using True Some by simp
      have q: "set (preorder (FigmaNode f cs)) =
          insert (FigmaNode f cs) (\<Union>c \<in> set l. set (preorder c))"
        using Some by simp
      show ?thesis unfolding p q using sub by blast
    qed
  qed
qed

text \<open>
  C10. The ids of a projected tree, read in pre-order, are the normalized ids of the source
  nodes that the projection visits, all of them nodes of the source tree. Each such id holds
  no dash, has no white space at either end, and is left unchanged by normalization. This
  holds for every depth; at depth zero or below the projection is the root with no children.
\<close>

theorem toTree_ids_normalized:
  "treeIds (toTree n depth) =
     map (\<lambda>m. normalizeNodeId (node_id (nodeFields m))) (projected n depth) \<and>
   set (projected n depth) \<subseteq> set (preorder n) \<and>
   (\<forall>i \<in> set (treeIds (toTree n depth)).
      CHR ''-'' \<notin> set i \<and> trimmed i \<and> normalizeNodeId i = i) \<and>
   (depth \<le> 0 \<longrightarrow>
      toTree n depth =
        TreeNode (normalizeNodeId (node_id (nodeFields n))) (node_name (nodeFields n))
          (node_type (nodeFields n)) [])"
proof (intro conjI impI)
  show ids: "treeIds (toTree n depth) =
     map (\<lambda>m. normalizeNodeId (node_id (nodeFields m))) (projected n depth)"
    by (rule treeIds_toTree)
  show "set (projected n depth) \<subseteq> set (preorder n)"
    by (rule projected_subset)
  show "\<forall>i \<in> set (treeIds (toTree n depth)).
      CHR ''-'' \<notin> set i \<and> trimmed i \<and> normalizeNodeId i = i"
  proof
    fix i assume "i \<in> set (treeIds (toTree n depth))"
    then obtain s where i: "i = normalizeNodeId s" unfolding ids by auto
    show "CHR ''-'' \<notin> set i \<and> trimmed i \<and> normalizeNodeId i = i"
      unfolding i
      by (simp add: trimmed_normalizeNodeId normalizeNodeId_idem)
        (simp add: normalizeNodeId_def replaceDashes_no_dash)
  qed
  assume "depth \<le> 0"
  then show "toTree n depth =
        TreeNode (normalizeNodeId (node_id (nodeFields n))) (node_name (nodeFields n))
          (node_type (nodeFields n)) []"
    by (cases n) (simp add: Let_def)
qed

theorem toTree_ids_normalized_witness:
  "treeIds (toTree dashedTree 2) = [''10:1'', ''10:2''] \<and>
   toTree dashedTree (- 1) = TreeNode ''10:1'' ''Root'' ''FRAME'' []"
  using toTree_ids_normalized [of dashedTree 2] toTree_ids_normalized [of dashedTree "- 1"]
  by (simp add: dashedTree_def mkFields_def normalizeNodeId_def trim_def replaceDashes_def
      isWhiteSpace_def)

section \<open>Export scale\<close>

text \<open>
  C7. Without an explicit scale, \<^const>\<open>resolveExportScale\<close> returns 2 when the retina flag is
  absent or false and 3 when it is set, and never fails. An explicit scale between 1 and 4
  is returned unchanged whatever the flag. With an explicit scale the call fails exactly when
  that scale is not finite or lies outside the range from 1 to 4, both ends included, and a
  call that succeeds returns it; \<open>NaN\<close>, 0 and 5 are rejected.
\<close>

theorem resolveExportScale_cases:
  "resolveExportScale None None = Inr (Fin 2) \<and>
   resolveExportScale None (Some False) = Inr (Fin 2) \<and>
   resolveExportScale None (Some True) = Inr (Fin 3) \<and>
   (1 \<le> q \<and> q \<le> 4 \<longrightarrow> resolveExportScale (Some (Fin q)) retina = Inr (Fin q)) \<and>
   ((\<exists>e. resolveExportScale (Some s) retina = Inl e) \<longleftrightarrow>
      (\<not> isFinite s \<or> (\<exists>q. s = Fin q \<and> (q < 1 \<or> 4 < q)))) \<and>
   (\<forall>e. resolveExportScale None retina \<noteq> Inl e) \<and>
   (\<forall>v. resolveExportScale (Some s) retina = Inr v \<longrightarrow> v = s) \<and>
   resolveExportScale (Some NaN) (Some False) = Inl (Error ''Scale must be between 1 and 4.'') \<and>
   resolveExportScale (Some (Fin 0)) (Some False) = Inl (Error ''Scale must be between 1 and 4.'') \<and>
   resolveExportScale (Some (Fin 5)) (Some False) = Inl (Error ''Scale must be between 1 and 4.'')"
proof -
  let ?err = "Inl (Error ''Scale must be between 1 and 4.'') :: error + jsnum"
  have default: "resolveExportScale None r = Inr (if r = Some True then Fin 3 else Fin 2)" for r
    by (simp add: resolveExportScale_def isFinite_def)
  have explicit: "resolveExportScale (Some v) r =
      (if \<not> isFinite v \<or> js_less v (Fin 1) \<or> js_less (Fin 4) v then ?err else Inr v)" for v r
    by (simp add: resolveExportScale_def)
  have range: "(\<not> isFinite v \<or> js_less v (Fin 1) \<or> js_less (Fin 4) v) =
      (\<not> isFinite v \<or> (\<exists>q. v = Fin q \<and> (q < 1 \<or> 4 < q)))" for v
    by (cases v) (simp_all add: isFinite_def)
  have inside: "resolveExportScale (Some (Fin q)) retina = Inr (Fin q)" if "1 \<le> q \<and> q \<le> 4"
    using that by (simp add: explicit isFinite_def)
  have fails: "(\<exists>e. resolveExportScale (Some s) retina = Inl e) =
      (\<not> isFinite s \<or> (\<exists>q. s = Fin q \<and> (q < 1 \<or> 4 < q)))"
    unfolding explicit range [symmetric] by simp
  have unchanged: "v = s" if "resolveExportScale (Some s) retina = Inr v" for v
    using that unfolding explicit by (simp split: if_splits)
  have rejected: "resolveExportScale (Some NaN) (Some False) = ?err"
    "resolveExportScale (Some (Fin 0)) (Some False) = ?err"
    "resolveExportScale (Some (Fin 5)) (Some False) = ?err"
    by (simp_all add: explicit isFinite_def)
  from inside fails unchanged rejected show ?thesis
    by (simp add: default)
qed

theorem resolveExportScale_cases_witness:
  "resolveExportScale (Some (Fin (5 / 2))) (Some True) = Inr (Fin (5 / 2)) \<and>
   (\<exists>e. resolveExportScale (Some PosInf) None = Inl e)"
  using resolveExportScale_cases [of "5 / 2" "Some True" PosInf]
    resolveExportScale_cases [of "5 / 2" None PosInf]
  by (simp add: isFinite_def)

section \<open>Floating-point rounding\<close>

text \<open>
  The exponent brackets its argument, and a rounded value is within half a unit in the last
  place of the exact one: within \<open>2 ^ (-53)\<close> of it relatively, or \<open>2 ^ (-1075)\<close> absolutely in
  the subnormal range. A rounded value is a binary64 value, every binary64 value is rounded
  to itself, and a magnitude of \<open>2 ^ 1024\<close> or more is rounded to an infinity.
\<close>

lemma floorLog2_lower: "2 powi floorLog2 a \<le> a" if "0 < a"
proof (cases "1 \<le> a")
  case True
  then have n: "0 < \<lfloor>a\<rfloor>" by linarith
  from bitlen_bounds [OF n] have "2 ^ nat (bitlen \<lfloor>a\<rfloor> - 1) \<le> \<lfloor>a\<rfloor>" ..
  then have "(of_int (2 ^ nat (bitlen \<lfloor>a\<rfloor> - 1)) :: rat) \<le> of_int \<lfloor>a\<rfloor>"
    by (simp only: of_int_le_iff)
  also have "\<dots> \<le> a" by simp
  finally have "(2::rat) ^ nat (bitlen \<lfloor>a\<rfloor> - 1) \<le> a" by simp
  moreover from n have "1 \<le> bitlen \<lfloor>a\<rfloor>"
    using bitlen_eq_zero_iff [of "\<lfloor>a\<rfloor>"] bitlen_nonneg [of "\<lfloor>a\<rfloor>"] by linarith
  ultimately show ?thesis using True by (simp add: floorLog2_def power_int_def)
next
  case False
  let ?c = "\<lceil>1 / a\<rceil> - 1"
  from False that have b: "1 < 1 / a" by simp
  then have c: "0 < ?c" by linarith
  from bitlen_bounds [OF c] have "?c < 2 ^ nat (bitlen ?c)" ..
  then have "\<lceil>1 / a\<rceil> \<le> 2 ^ nat (bitlen ?c)" by simp
  then have "(of_int \<lceil>1 / a\<rceil> :: rat) \<le> of_int (2 ^ nat (bitlen ?c))"
    by (simp only: of_int_le_iff)
  moreover have "1 / a \<le> of_int \<lceil>1 / a\<rceil>" by (rule le_of_int_ceiling)
  ultimately have "1 / a \<le> of_int (2 ^ nat (bitlen ?c))" by linarith
  then have "1 / a \<le> (2::rat) ^ nat (bitlen ?c)" by simp
  with that have "1 / (2::rat) ^ nat (bitlen ?c) \<le> a"
    by (simp add: field_simps)
  moreover from c have "1 \<le> bitlen ?c"
    using bitlen_eq_zero_iff [of ?c] bitlen_nonneg [of ?c] by linarith
  ultimately show ?thesis using False
    by (simp add: floorLog2_def power_int_def inverse_eq_divide power_one_over)
qed

lemma floorLog2_upper: "a < 2 powi (floorLog2 a + 1)" if "0 < a"
proof (cases "1 \<le> a")
  case True
  then have n: "0 < \<lfloor>a\<rfloor>" by linarith
  from bitlen_bounds [OF n] have "\<lfloor>a\<rfloor> < 2 ^ nat (bitlen \<lfloor>a\<rfloor>)" ..
  then have "\<lfloor>a\<rfloor> + 1 \<le> 2 ^ nat (bitlen \<lfloor>a\<rfloor>)" by simp
  then have "(of_int (\<lfloor>a\<rfloor> + 1) :: rat) \<le> of_int (2 ^ nat (bitlen \<lfloor>a\<rfloor>))"
    by (simp only: of_int_le_iff)
  moreover have "a < of_int (\<lfloor>a\<rfloor> + 1)" by linarith
  ultimately have "a < (2::rat) ^ nat (bitlen \<lfloor>a\<rfloor>)" by simp
  moreover have "0 \<le> bitlen \<lfloor>a\<rfloor>" by (rule bitlen_nonneg)
  ultimately show ?thesis using True by (simp add: floorLog2_def power_int_def)
next
  case False
  let ?c = "\<lceil>1 / a\<rceil> - 1"
  from False that have b: "1 < 1 / a" by simp
  then have c: "0 < ?c" by linarith
  from c have k: "1 \<le> bitlen ?c"
    using bitlen_eq_zero_iff [of ?c] bitlen_nonneg [of ?c] by linarith
  from bitlen_bounds [OF c] have "2 ^ nat (bitlen ?c - 1) \<le> ?c" ..
  then have "(of_int (2 ^ nat (bitlen ?c - 1)) :: rat) \<le> of_int ?c"
    by (simp only: of_int_le_iff)
  moreover have "of_int ?c < 1 / a" by linarith
  ultimately have "(2::rat) ^ nat (bitlen ?c - 1) < 1 / a" by simp
  with that have "a < 1 / (2::rat) ^ nat (bitlen ?c - 1)"
    by (simp add: field_simps)
  moreover have "2 powi (- bitlen ?c + 1) = 1 / (2::rat) ^ nat (bitlen ?c - 1)"
  proof (cases "bitlen ?c = 1")
    case True
    then show ?thesis by simp
  next
    case False
    with k have "- bitlen ?c + 1 < 0" by simp
    moreover have "nat (- (- bitlen ?c + 1)) = nat (bitlen ?c - 1)" by simp
    ultimately show ?thesis
      by (simp add: power_int_def inverse_eq_divide power_one_over)
  qed
  ultimately show ?thesis using False by (simp add: floorLog2_def)
qed


lemma roundHalfEven_of_int: "roundHalfEven (of_int n) = n"
  by (simp add: roundHalfEven_def)




lemma toDouble_not_NaN: "toDouble x \<noteq> NaN"
  by (simp add: toDouble_def Let_def)

lemma power_int_less_cancel:
  assumes "(2::rat) powi i < 2 powi j"
  shows "i < j"
proof (rule ccontr)
  assume "\<not> i < j"
  then have "j \<le> i" by simp
  then have "(2::rat) powi j \<le> 2 powi i" by (rule power_int_increasing) simp
  with assms show False by simp
qed

lemma roundHalfEven_nonneg: "0 \<le> q \<Longrightarrow> 0 \<le> roundHalfEven q"
  by (auto simp add: roundHalfEven_def Let_def)

lemma roundHalfEven_le: "q \<le> of_int n \<Longrightarrow> roundHalfEven q \<le> n"
proof -
  assume q: "q \<le> of_int n"
  show ?thesis
  proof (cases "q = of_int n")
    case True
    then show ?thesis by (simp add: roundHalfEven_of_int)
  next
    case False
    with q have "q < of_int n" by simp
    then have "\<lfloor>q\<rfloor> < n" by (simp add: floor_less_iff)
    then show ?thesis by (auto simp add: roundHalfEven_def Let_def)
  qed
qed

lemma toDouble_exact:
  assumes m: "\<bar>m\<bar> < 2 ^ 53" and e: "- 1074 \<le> e" "e \<le> 971"
  shows "toDouble (of_int m * 2 powi e) = Fin (of_int m * 2 powi e)"
proof (cases "m = 0")
  case True
  then show ?thesis by (simp add: toDouble_def)
next
  case False
  define x :: rat where "x = of_int m * 2 powi e"
  define a where "a = \<bar>x\<bar>"
  define e' where "e' = max (floorLog2 a - 52) (- 1074)"
  have a: "a = of_int \<bar>m\<bar> * 2 powi e" by (simp add: a_def x_def abs_mult)
  from False have pos: "0 < a" by (simp add: a)
  from False have nz: "(x = 0) = False" by (simp add: x_def)
  have "2 powi floorLog2 a \<le> a" using pos by (rule floorLog2_lower)
  also have "a < 2 ^ 53 * 2 powi e"
  proof -
    from m have "(of_int \<bar>m\<bar> :: rat) < of_int (2 ^ 53)" by (simp only: of_int_less_iff)
    then have "(of_int \<bar>m\<bar> :: rat) < 2 ^ 53" by simp
    then show ?thesis unfolding a by (intro mult_strict_right_mono) simp_all
  qed
  also have "(2::rat) ^ 53 * 2 powi e = 2 powi (53 + e)"
    by (subst power_int_add) simp_all
  finally have "floorLog2 a < 53 + e" by (rule power_int_less_cancel)
  with e have le: "e' \<le> e" by (simp add: e'_def)
  define m' where "m' = \<bar>m\<bar> * 2 ^ nat (e - e')"
  have split: "(2::rat) powi e = 2 powi (e - e') * 2 powi e'"
    by (subst power_int_add [symmetric]) simp_all
  from le have "(2::rat) powi (e - e') = 2 ^ nat (e - e')" by (simp add: power_int_def)
  with split have scaled: "a = of_int m' * 2 powi e'" by (simp add: a m'_def)
  then have "a / 2 powi e' = of_int m'" by simp
  then have r: "roundHalfEven (a / 2 powi e') = m'" by (simp only: roundHalfEven_of_int)
  have fin: "(971 < e' \<or> e' = 971 \<and> 2 ^ 53 \<le> m') = False"
  proof -
    have "m' < 2 ^ 53" if "e' = 971"
    proof -
      from that le e have "e - e' = 0" by simp
      with m show ?thesis by (simp add: m'_def)
    qed
    with le e show ?thesis by auto
  qed
  have "sgn x * a = x" by (simp add: a_def sgn_mult_abs)
  with scaled have y: "sgn x * (of_int m' * 2 powi e') = x" by simp
  have "toDouble x = Fin x"
    unfolding toDouble_def Let_def a_def [symmetric] e'_def [symmetric]
    by (simp only: nz r fin y if_False)
  then show ?thesis by (simp only: x_def)
qed

lemma toDouble_representable:
  assumes "toDouble x = Fin y"
  shows "\<exists>m e. \<bar>y\<bar> = of_int m * 2 powi e \<and> 0 \<le> m \<and> m < 2 ^ 53 \<and> - 1074 \<le> e \<and> e \<le> 971"
proof (cases "x = 0")
  case True
  with assms have "y = 0" by (simp add: toDouble_def)
  then have "\<bar>y\<bar> = of_int 0 * 2 powi 0 \<and> (0::int) \<le> 0 \<and> (0::int) < 2 ^ 53 \<and>
      (- 1074 :: int) \<le> 0 \<and> (0::int) \<le> 971"
    by simp
  then show ?thesis by blast
next
  case False
  define a where "a = \<bar>x\<bar>"
  define e where "e = max (floorLog2 a - 52) (- 1074)"
  define m where "m = roundHalfEven (a / 2 powi e)"
  from False have pos: "0 < a" by (simp add: a_def)
  from assms False have fin: "\<not> (971 < e \<or> e = 971 \<and> 2 ^ 53 \<le> m)"
    unfolding toDouble_def Let_def a_def [symmetric] e_def [symmetric] m_def [symmetric]
    by (auto split: if_splits)
  from assms False fin have y: "y = sgn x * (of_int m * 2 powi e)"
    unfolding toDouble_def Let_def a_def [symmetric] e_def [symmetric] m_def [symmetric]
    by (simp split: if_splits)
  from pos have m0: "0 \<le> m" unfolding m_def by (intro roundHalfEven_nonneg) simp
  have "a < 2 powi (floorLog2 a + 1)" using pos by (rule floorLog2_upper)
  also have "(2::rat) powi (floorLog2 a + 1) \<le> 2 powi (e + 53)"
    by (rule power_int_increasing) (simp_all add: e_def)
  also have "(2::rat) powi (e + 53) = 2 powi e * 2 ^ 53"
    by (subst power_int_add) simp_all
  finally have "a / 2 powi e < 2 ^ 53" by (simp add: pos_divide_less_eq mult.commute)
  then have "a / 2 powi e \<le> of_int (2 ^ 53)" by simp
  then have m1: "m \<le> 2 ^ 53" unfolding m_def by (rule roundHalfEven_le)
  have e1: "- 1074 \<le> e" by (simp add: e_def)
  from fin have e2: "e \<le> 971" by simp
  from False m0 have ay: "\<bar>y\<bar> = of_int m * 2 powi e"
    unfolding y by (simp add: abs_mult abs_sgn_eq)
  show ?thesis
  proof (cases "m = 2 ^ 53")
    case True
    with fin e2 have e3: "e + 1 \<le> 971" by simp
    have "(2::rat) powi (e + 1) = 2 powi e * 2 powi 1"
      by (subst power_int_add) simp_all
    with True ay have "\<bar>y\<bar> = of_int (2 ^ 52) * 2 powi (e + 1)" by simp
    with e1 e3 have "\<bar>y\<bar> = of_int (2 ^ 52) * 2 powi (e + 1) \<and> (0::int) \<le> 2 ^ 52 \<and>
        (2::int) ^ 52 < 2 ^ 53 \<and> - 1074 \<le> e + 1 \<and> e + 1 \<le> 971"
      by simp
    then show ?thesis by blast
  next
    case False
    with m1 have "m < 2 ^ 53" by simp
    with ay m0 e1 e2 show ?thesis by blast
  qed
qed




lemma toDouble_examples:
  "toDouble (1 / 10) = Fin (3602879701896397 / 36028797018963968) \<and>
   js_add (Fin (3602879701896397 / 36028797018963968)) (Fin (3602879701896397 / 18014398509481984)) =
     Fin (1351079888211149 / 4503599627370496) \<and>
   toDouble (15 / 1000) = Fin (1080863910568919 / 72057594037927936) \<and>
   js_mul (Fin (1080863910568919 / 72057594037927936)) (Fin 100) = Fin (3 / 2) \<and>
   toDouble (1 / 50) = Fin (5764607523034235 / 288230376151711744) \<and>
   toDouble (4999 / 100) = Fin (7035467042882847 / 140737488355328) \<and>
   js_add (Fin 1) (Fin (1 / 9007199254740992)) = Fin 1 \<and>
   js_add (Fin 1) (Fin (3 / 9007199254740992)) = Fin (1 + 1 / 2251799813685248) \<and>
   js_div (Fin 1) (Fin 3) = Fin (6004799503160661 / 18014398509481984)"
  by code_simp

lemma toDouble_overflow:
  assumes "2 ^ 1024 \<le> \<bar>x\<bar>"
  shows "toDouble x = (if 0 < x then PosInf else NegInf)"
proof -
  have pos: "0 < \<bar>x\<bar>" using assms by (rule less_le_trans [rotated]) simp
  have "(2::rat) powi 1024 \<le> \<bar>x\<bar>" using assms by simp
  also have "\<dots> < 2 powi (floorLog2 \<bar>x\<bar> + 1)" using pos by (rule floorLog2_upper)
  finally have lt: "(2::rat) powi 1024 < 2 powi (floorLog2 \<bar>x\<bar> + 1)" .
  have "(1024::int) < floorLog2 \<bar>x\<bar> + 1"
  proof (rule ccontr)
    assume "\<not> 1024 < floorLog2 \<bar>x\<bar> + 1"
    then have "floorLog2 \<bar>x\<bar> + 1 \<le> 1024" by simp
    then have "(2::rat) powi (floorLog2 \<bar>x\<bar> + 1) \<le> 2 powi 1024"
      by (rule power_int_increasing) simp
    with lt show False by simp
  qed
  then have big: "(971 < max (floorLog2 \<bar>x\<bar> - 52) (- 1074)) = True" by simp
  from pos have nz: "(x = 0) = False" by simp
  show ?thesis
    unfolding toDouble_def Let_def by (simp only: big nz if_False if_True simp_thms)
qed

section \<open>Padding inference\<close>








lemma roundTo2_overflow:
  assumes "2 ^ 1024 \<le> q * 100"
  shows "roundTo2 (Fin q) = PosInf"
proof -
  from assms have "(2::rat) ^ 1024 \<le> \<bar>q * 100\<bar>" by simp
  moreover from assms have "0 < q * 100" by (rule less_le_trans [rotated]) simp
  ultimately have "toDouble (q * 100) = PosInf" by (simp only: toDouble_overflow if_True)
  then show ?thesis by (simp add: roundTo2_def)
qed






section \<open>Audit score\<close>

lemma ratio_below_tenth:
  assumes "50 < t"
  shows "((of_nat i :: rat) / of_nat (max t 1) < 1 / 10) = (10 * i < t)"
proof -
  from assms have m: "max t 1 = t" by simp
  from assms have p: "(0::rat) < of_nat t" by simp
  have "((of_nat i :: rat) / of_nat t < 1 / 10) = ((of_nat i :: rat) < 1 / 10 * of_nat t)"
    using p by (rule pos_divide_less_eq)
  also have "\<dots> = (10 * (of_nat i :: rat) < of_nat t)" by auto
  also have "\<dots> = ((of_nat (10 * i) :: rat) < of_nat t)" by simp
  also have "\<dots> = (10 * i < t)" by (rule of_nat_less_iff)
  finally show ?thesis unfolding m .
qed

lemma score_deduct:
  "score (deduct cond sev msg k r) = score r - (if cond then k else 0)"
  by (simp add: deduct_def)

lemma auditScore_deductions: "auditScore c = max 0 (100 - deductions c)"
proof (cases "50 < totalNodes c")
  case True
  then show ?thesis
    unfolding auditScore_def auditIssues_def Let_def deductions_def
    by (simp only: score_deduct ratio_below_tenth) simp
next
  case False
  then show ?thesis
    unfolding auditScore_def auditIssues_def Let_def deductions_def
    by (simp only: score_deduct) simp
qed

lemma deductions_range: "0 \<le> deductions c \<and> deductions c \<le> 65"
  by (simp add: deductions_def)

lemma deductions_colors_mono:
  "colorsSize c \<le> k \<Longrightarrow> deductions c \<le> deductions (c\<lparr>colorsSize := k\<rparr>)"
  by (simp add: deductions_def)

text \<open>
  C3. The score is 100 minus the sum of the deductions, never below 0: 10 for more than 20
  distinct colors, 10 for more than 3 font families, 5 for more than 10 font sizes, 10 where
  fewer than a tenth of more than 50 nodes are component instances, 5 for more than 10
  unstyled nodes, 15 where more than 20 nodes hold no component, 10 where more than 10 nodes
  come with no shared style of the file. It lies between 0 and 100, a larger number of
  distinct colors never gives a larger score, and beyond 20 colors it gives the same score.
\<close>

theorem auditScore_deductions_range_monotone:
  "auditScore c = max 0 (100 - deductions c) \<and>
   deductions c =
     (if 20 < colorsSize c then 10 else 0) +
     (if 3 < fontsSize c then 10 else 0) +
     (if 10 < fontSizesSize c then 5 else 0) +
     (if 10 * componentInstances c < totalNodes c \<and> 50 < totalNodes c then 10 else 0) +
     (if 10 < unstyledNodesLength c then 5 else 0) +
     (if components c = 0 \<and> 20 < totalNodes c then 15 else 0) +
     (if definedStylesCount c = 0 \<and> 10 < totalNodes c then 10 else 0) \<and>
   0 \<le> auditScore c \<and> auditScore c \<le> 100 \<and>
   (colorsSize c \<le> k \<longrightarrow> auditScore (c\<lparr>colorsSize := k\<rparr>) \<le> auditScore c) \<and>
   (20 < colorsSize c \<and> colorsSize c \<le> k \<longrightarrow>
      auditScore (c\<lparr>colorsSize := k\<rparr>) = auditScore c)"
proof (intro conjI impI)
  show "auditScore c = max 0 (100 - deductions c)" by (rule auditScore_deductions)
  show "deductions c =
     (if 20 < colorsSize c then 10 else 0) +
     (if 3 < fontsSize c then 10 else 0) +
     (if 10 < fontSizesSize c then 5 else 0) +
     (if 10 * componentInstances c < totalNodes c \<and> 50 < totalNodes c then 10 else 0) +
     (if 10 < unstyledNodesLength c then 5 else 0) +
     (if components c = 0 \<and> 20 < totalNodes c then 15 else 0) +
     (if definedStylesCount c = 0 \<and> 10 < totalNodes c then 10 else 0)"
    by (rule deductions_def)
  show "0 \<le> auditScore c" by (simp add: auditScore_deductions)
  show "auditScore c \<le> 100"
    using deductions_range [of c] by (simp add: auditScore_deductions)
  show "auditScore (c\<lparr>colorsSize := k\<rparr>) \<le> auditScore c" if "colorsSize c \<le> k"
    using deductions_colors_mono [OF that] by (simp add: auditScore_deductions)
  show "auditScore (c\<lparr>colorsSize := k\<rparr>) = auditScore c"
    if "20 < colorsSize c \<and> colorsSize c \<le> k"
    using that by (simp add: auditScore_deductions deductions_def)
qed

theorem auditScore_deductions_range_monotone_witness:
  "auditScore busyFile = 35 \<and> auditScore (busyFile\<lparr>colorsSize := 40\<rparr>) = 35 \<and>
   auditScore (busyFile\<lparr>colorsSize := 20\<rparr>) = 45"
  using auditScore_deductions_range_monotone [of busyFile 40]
    auditScore_deductions_range_monotone [of "busyFile\<lparr>colorsSize := 20\<rparr>" 20]
  by (simp add: busyFile_def)

section \<open>Diff engine\<close>

lemma fold_concat_map: "fold fn (concat (map g l)) s = fold (\<lambda>c. fold fn (g c)) l s"
  by (induction l arbitrary: s) simp_all

lemma fold_eq_on_set: "(\<And>c. c \<in> set l \<Longrightarrow> f c = g c) \<Longrightarrow> fold f l = fold g l"
  by (induction l) simp_all

lemma traverse_fold: "traverse n fn st = fold fn (preorder n) st"
proof (induction n fn st rule: traverse.induct)
  case (1 f cs fn st)
  show ?case
  proof (cases cs)
    case None
    then show ?thesis by simp
  next
    case (Some l)
    have "traverse c fn = fold fn (preorder c)" if "c \<in> set l" for c
      using "1.IH" [OF Some that] by (simp add: fun_eq_iff)
    then have "fold (\<lambda>child. traverse child fn) l = fold (\<lambda>c. fold fn (preorder c)) l"
      by (rule fold_eq_on_set)
    then have "fold (\<lambda>child. traverse child fn) l s = fold fn (concat (map preorder l)) s" for s
      by (simp add: fold_concat_map)
    with Some show ?thesis by simp
  qed
qed

lemma distinct_setAdd: "distinct xs \<Longrightarrow> distinct (setAdd x xs)"
  by (simp add: setAdd_def)

lemma snapshotVisit_distinct:
  "distinct (textStylesSet st) \<and> distinct (fillColorsSet st) \<Longrightarrow>
   distinct (textStylesSet (snapshotVisit numStr item st)) \<and>
   distinct (fillColorsSet (snapshotVisit numStr item st))"
  by (simp add: snapshotVisit_def Let_def distinct_setAdd split: option.splits)

lemma fold_snapshotVisit_distinct:
  "distinct (textStylesSet st) \<and> distinct (fillColorsSet st) \<Longrightarrow>
   distinct (textStylesSet (fold (snapshotVisit numStr) ns st)) \<and>
   distinct (fillColorsSet (fold (snapshotVisit numStr) ns st))"
proof (induction ns arbitrary: st)
  case Nil
  then show ?case by simp
next
  case (Cons n ns)
  from Cons.prems have "distinct (textStylesSet (snapshotVisit numStr n st)) \<and>
      distinct (fillColorsSet (snapshotVisit numStr n st))"
    by (rule snapshotVisit_distinct)
  then show ?case using Cons.IH by simp
qed

lemma snapshot_strictly_sorted:
  "sorted_wrt (<) (textStyles (snapshot numStr n)) \<and> sorted_wrt (<) (fillColors (snapshot numStr n))"
proof -
  let ?st = "fold (snapshotVisit numStr) (preorder n)
      \<lparr>textParts = [], textStylesSet = [], fillColorsSet = []\<rparr>"
  have "distinct (textStylesSet ?st) \<and> distinct (fillColorsSet ?st)"
    by (rule fold_snapshotVisit_distinct) simp
  then show ?thesis
    by (simp add: snapshot_def traverse_fold Let_def strict_sorted_iff)
qed

lemma arrayDiff_mirror:
  "added (arrayDiff xs ys) = removed (arrayDiff ys xs) \<and>
   removed (arrayDiff xs ys) = added (arrayDiff ys xs)"
  by (simp add: arrayDiff_def)

lemma arrayDiff_sets:
  "set (added (arrayDiff xs ys)) = set ys - set xs \<and>
   set (removed (arrayDiff xs ys)) = set xs - set ys"
  by (auto simp add: arrayDiff_def)

lemma arrayDiff_sorted:
  "sorted_wrt (<) xs \<Longrightarrow> sorted_wrt (<) ys \<Longrightarrow>
   sorted_wrt (<) (added (arrayDiff xs ys)) \<and> sorted_wrt (<) (removed (arrayDiff xs ys))"
  by (simp add: arrayDiff_def sorted_wrt_filter)

lemma diff_styles_buildDiff:
  "diff_styles (buildDiff x y) =
     \<lparr>textStylesAddedInB = added (arrayDiff (textStyles x) (textStyles y)),
      textStylesRemovedFromA = removed (arrayDiff (textStyles x) (textStyles y)),
      fillColorsAddedInB = added (arrayDiff (fillColors x) (fillColors y)),
      fillColorsRemovedFromA = removed (arrayDiff (fillColors x) (fillColors y))\<rparr>"
  by (simp add: buildDiff_def Let_def)

lemma buildDiff_mirror:
  "(let d = diff_styles (buildDiff a b); e = diff_styles (buildDiff b a)
    in textStylesAddedInB d = textStylesRemovedFromA e \<and>
       textStylesRemovedFromA d = textStylesAddedInB e \<and>
       fillColorsAddedInB d = fillColorsRemovedFromA e \<and>
       fillColorsRemovedFromA d = fillColorsAddedInB e \<and>
       set (textStylesAddedInB d) = set (textStyles b) - set (textStyles a) \<and>
       set (textStylesRemovedFromA d) = set (textStyles a) - set (textStyles b) \<and>
       set (fillColorsAddedInB d) = set (fillColors b) - set (fillColors a) \<and>
       set (fillColorsRemovedFromA d) = set (fillColors a) - set (fillColors b))"
proof -
  have m: "added (arrayDiff xs ys) = removed (arrayDiff ys xs)" for xs ys
    using arrayDiff_mirror [of xs ys] by simp
  have t: "set (added (arrayDiff xs ys)) = set ys - set xs"
    "set (removed (arrayDiff xs ys)) = set xs - set ys" for xs ys
    using arrayDiff_sets [of xs ys] by simp_all
  show ?thesis
    by (simp add: Let_def diff_styles_buildDiff m t)
qed

lemma buildDiff_snapshot_sorted:
  "(let d = diff_styles (buildDiff (snapshot numStr na) (snapshot numStr nb))
    in sorted_wrt (<) (textStylesAddedInB d) \<and> sorted_wrt (<) (textStylesRemovedFromA d) \<and>
       sorted_wrt (<) (fillColorsAddedInB d) \<and> sorted_wrt (<) (fillColorsRemovedFromA d))"
  using snapshot_strictly_sorted [of numStr na] snapshot_strictly_sorted [of numStr nb]
  by (simp add: Let_def diff_styles_buildDiff arrayDiff_sorted)

text \<open>
  C4. For every two snapshots, the text-style signatures and the fill colors that the diff of
  the first against the second reports as added are those that the diff of the second
  against the first reports as removed, and conversely; the added ones are those of the
  second snapshot that the first lacks. For snapshots taken from nodes, each of the four
  lists is strictly increasing in the lexicographic order of strings by character code.
\<close>

theorem diff_styles_mirrored_sorted:
  "(let d = diff_styles (buildDiff a b); e = diff_styles (buildDiff b a)
    in textStylesAddedInB d = textStylesRemovedFromA e \<and>
       textStylesRemovedFromA d = textStylesAddedInB e \<and>
       fillColorsAddedInB d = fillColorsRemovedFromA e \<and>
       fillColorsRemovedFromA d = fillColorsAddedInB e \<and>
       set (textStylesAddedInB d) = set (textStyles b) - set (textStyles a) \<and>
       set (textStylesRemovedFromA d) = set (textStyles a) - set (textStyles b) \<and>
       set (fillColorsAddedInB d) = set (fillColors b) - set (fillColors a) \<and>
       set (fillColorsRemovedFromA d) = set (fillColors a) - set (fillColors b)) \<and>
   (let d = diff_styles (buildDiff (snapshot numStr na) (snapshot numStr nb))
    in sorted_wrt (<) (textStylesAddedInB d) \<and> sorted_wrt (<) (textStylesRemovedFromA d) \<and>
       sorted_wrt (<) (fillColorsAddedInB d) \<and> sorted_wrt (<) (fillColorsRemovedFromA d))"
  using buildDiff_mirror [of a b] buildDiff_snapshot_sorted [of numStr na nb] by (rule conjI)

theorem diff_styles_mirrored_sorted_witness:
  "fillColorsAddedInB (diff_styles (buildDiff (snapshot decimalString diffNodeA)
      (snapshot decimalString diffNodeB))) = [''#00ff00''] \<and>
   fillColorsRemovedFromA (diff_styles (buildDiff (snapshot decimalString diffNodeB)
      (snapshot decimalString diffNodeA))) = [''#00ff00''] \<and>
   textStylesRemovedFromA (diff_styles (buildDiff (snapshot decimalString diffNodeA)
      (snapshot decimalString diffNodeB))) = [''Inter|400|16|24''] \<and>
   textStylesAddedInB (diff_styles (buildDiff (snapshot decimalString diffNodeB)
      (snapshot decimalString diffNodeA))) = [''Inter|400|16|24'']"
proof -
  have a: "textStyles (snapshot decimalString diffNodeA) = [''Inter|400|16|24'']"
    "fillColors (snapshot decimalString diffNodeA) = [''#0000ff'', ''#ff0000'']"
    by code_simp+
  have b: "textStyles (snapshot decimalString diffNodeB) = [''Inter|700|16|24'']"
    "fillColors (snapshot decimalString diffNodeB) = [''#00ff00'', ''#ff0000'']"
    by code_simp+
  have f: "fillColorsAddedInB (diff_styles (buildDiff (snapshot decimalString diffNodeA)
      (snapshot decimalString diffNodeB))) = [''#00ff00'']"
    by (simp add: buildDiff_def Let_def arrayDiff_def a b)
  have g: "textStylesRemovedFromA (diff_styles (buildDiff (snapshot decimalString diffNodeA)
      (snapshot decimalString diffNodeB))) = [''Inter|400|16|24'']"
    by (simp add: buildDiff_def Let_def arrayDiff_def a b)
  from diff_styles_mirrored_sorted
    [of "snapshot decimalString diffNodeA" "snapshot decimalString diffNodeB"] f g
  show ?thesis by (simp add: Let_def)
qed

section \<open>Colors in the audit and in the diff\<close>

lemma auditFillColors_erase:
  "auditFillColors (map eraseFillAlpha fs) colors = auditFillColors fs colors"
proof (induction fs arbitrary: colors)
  case Nil
  show ?case by simp
next
  case (Cons fill fs)
  have "auditFillColors [eraseFillAlpha fill] colors = auditFillColors [fill] colors"
    by (cases "fill_color fill"; cases "fill_type fill = ''SOLID''")
      (simp_all add: eraseFillAlpha_def rgbaToHex_def)
  then show ?case using Cons.IH by simp
qed

lemma auditVisitColors_erase: "auditVisitColors (eraseAlpha n) = auditVisitColors n"
  by (cases n) (simp add: fun_eq_iff auditVisitColors_def auditFillColors_erase split: option.splits)

lemma preorder_eraseAlpha: "preorder (eraseAlpha n) = map eraseAlpha (preorder n)"
proof (induction n rule: eraseAlpha.induct)
  case (1 f cs)
  show ?case
  proof (cases cs)
    case None
    then show ?thesis by simp
  next
    case (Some l)
    have "preorder (eraseAlpha c) = map eraseAlpha (preorder c)" if "c \<in> set l" for c
      using "1.IH" [OF Some that] .
    with Some show ?thesis by (simp add: map_concat comp_def cong: map_cong)
  qed
qed

lemma traverseNodes_fold: "traverseNodes n fn st = fold fn (preorder n) st"
proof (induction n fn st rule: traverseNodes.induct)
  case (1 f cs fn st)
  show ?case
  proof (cases cs)
    case None
    then show ?thesis by simp
  next
    case (Some l)
    have "traverseNodes c fn = fold fn (preorder c)" if "c \<in> set l" for c
      using "1.IH" [OF Some that] by (simp add: fun_eq_iff)
    then have "fold (\<lambda>child. traverseNodes child fn) l = fold (\<lambda>c. fold fn (preorder c)) l"
      by (rule fold_eq_on_set)
    then have "fold (\<lambda>child. traverseNodes child fn) l s = fold fn (concat (map preorder l)) s"
      for s
      by (simp add: fold_concat_map)
    with Some show ?thesis by simp
  qed
qed

lemma auditColors_erase: "auditColors (eraseAlpha n) = auditColors n"
  by (simp add: auditColors_def traverseNodes_fold preorder_eraseAlpha fold_map comp_def
      auditVisitColors_erase)

lemma toByteHex_not_Nil: "toByteHex n \<noteq> []"
proof -
  have "2 \<le> length (padStart 2 c s)" for c s
    by (simp add: padStart_def)
  from this [of "CHR ''0''" "toStringRadix 16 (mathRound (js_mul n (Fin 255)))"]
  show ?thesis unfolding toByteHex_def by auto
qed

lemma toHex_below_one: "js_less a (Fin 1) \<Longrightarrow> toHex r g b a = rgbaToHex r g b a' @ toByteHex a"
  by (simp add: toHex_def rgbaToHex_def)

lemma toHex_not_below_one: "\<not> js_less a (Fin 1) \<Longrightarrow> toHex r g b a = rgbaToHex r g b a'"
  by (simp add: toHex_def rgbaToHex_def)

lemma toHex_eq_iff:
  "(toHex r g b a = toHex r g b a') =
     ((js_less a (Fin 1) = js_less a' (Fin 1)) \<and>
      (js_less a (Fin 1) \<longrightarrow> toByteHex a = toByteHex a'))"
  using toByteHex_not_Nil [of a] toByteHex_not_Nil [of a']
  by (auto simp add: toHex_def Let_def)

lemma toByteHex_examples:
  "toByteHex (Fin 1) = ''ff'' \<and> toByteHex (Fin 0) = ''00'' \<and>
   toByteHex (Fin (1 / 2)) = ''80'' \<and> toByteHex (Fin (1 / 4)) = ''40'' \<and>
   toDouble (501 / 1000) = Fin (4512606826625237 / 9007199254740992) \<and>
   toByteHex (Fin (4512606826625237 / 9007199254740992)) = ''80'' \<and>
   toDouble (12745098039215685 / 100000000000000000) = Fin (286994093901061 / 2251799813685248) \<and>
   js_mul (Fin (286994093901061 / 2251799813685248)) (Fin 255) = Fin (65 / 2) \<and>
   toByteHex (Fin (286994093901061 / 2251799813685248)) = ''21''"
  by code_simp

lemma audit_two_fills_one_color:
  assumes "solidColor f1 = Some c1" "solidColor f2 = Some c2"
    and "color_r c1 = color_r c2" "color_g c1 = color_g c2" "color_b c1 = color_b c2"
  shows "length (auditFillColors [f1, f2] []) = 1"
  using assms by (simp add: solidColor_def rgbaToHex_def setAdd_def split: if_splits)

lemma auditFillColors_step:
  "auditFillColors (fill # fs) cs =
     auditFillColors fs (case solidColor fill of None \<Rightarrow> cs | Some col \<Rightarrow> setAdd (sixDigits col) cs)"
  by (cases "fill_type fill = ''SOLID''"; cases "fill_color fill")
    (simp_all add: solidColor_def sixDigits_def rgbaToHex_def)

lemma set_setAdd: "set (setAdd x xs) = insert x (set xs)"
  by (auto simp add: setAdd_def)

lemma auditFillColors_set:
  "set (auditFillColors fs cs) = set cs \<union> sixDigits ` set (List.map_filter solidColor fs)"
proof (induction fs arbitrary: cs)
  case Nil
  show ?case by (simp add: List.map_filter_def)
next
  case (Cons fill fs)
  show ?case
    unfolding auditFillColors_step Cons.IH
    by (cases "solidColor fill") (simp_all add: List.map_filter_def set_setAdd)
qed

lemma auditFillColors_distinct: "distinct cs \<Longrightarrow> distinct (auditFillColors fs cs)"
proof (induction fs arbitrary: cs)
  case Nil
  then show ?case by simp
next
  case (Cons fill fs)
  from Cons.prems
  have "distinct (case solidColor fill of None \<Rightarrow> cs | Some col \<Rightarrow> setAdd (sixDigits col) cs)"
    by (cases "solidColor fill") (simp_all add: distinct_setAdd)
  then show ?case unfolding auditFillColors_step by (rule Cons.IH)
qed

lemma auditVisitColors_fillList: "auditVisitColors node cs = auditFillColors (fillList node) cs"
  by (simp add: auditVisitColors_def fillList_def split: option.splits)

lemma fold_auditVisitColors_set:
  "set (fold auditVisitColors ns cs) = set cs \<union> sixDigits ` set (concat (map solidColors ns))"
proof (induction ns arbitrary: cs)
  case Nil
  show ?case by simp
next
  case (Cons node ns)
  have "set (fold auditVisitColors (node # ns) cs) =
      set (auditVisitColors node cs) \<union> sixDigits ` set (concat (map solidColors ns))"
    by (simp add: Cons.IH)
  also have "set (auditVisitColors node cs) = set cs \<union> sixDigits ` set (solidColors node)"
    by (simp add: auditVisitColors_fillList auditFillColors_set solidColors_def)
  finally show ?case by (simp add: image_Un Un_assoc)
qed

lemma fold_auditVisitColors_distinct:
  "distinct cs \<Longrightarrow> distinct (fold auditVisitColors ns cs)"
proof (induction ns arbitrary: cs)
  case Nil
  then show ?case by simp
next
  case (Cons node ns)
  from Cons.prems have "distinct (auditVisitColors node cs)"
    unfolding auditVisitColors_fillList by (rule auditFillColors_distinct)
  then show ?case using Cons.IH by simp
qed

lemma auditColors_set: "set (auditColors n) = sixDigits ` set (treeColors n)"
  by (simp add: auditColors_def traverseNodes_fold fold_auditVisitColors_set treeColors_def)

lemma auditColors_distinct: "distinct (auditColors n)"
  unfolding auditColors_def traverseNodes_fold by (rule fold_auditVisitColors_distinct) simp

lemma uniqueColors_card: "uniqueColors n = card (sixDigits ` set (treeColors n))"
  using distinct_card [OF auditColors_distinct [of n]]
  by (simp add: uniqueColors_def auditColors_set)

lemma firstSolidFillColorLoop_firstSolid:
  "firstSolidFillColorLoop fs = Option.bind (firstSolid fs) diffColor"
proof (induction fs)
  case Nil
  show ?case by (simp add: firstSolid_def)
next
  case (Cons fill fs)
  then show ?case
    by (cases "fill_type fill = ''SOLID''"; cases "fill_color fill")
      (simp_all add: firstSolid_def solidColor_def diffColor_def)
qed

lemma firstSolidFillColor_firstSolid:
  "firstSolidFillColor node = Option.bind (firstSolid (fillList node)) diffColor"
  by (simp add: firstSolidFillColor_def fillList_def firstSolidFillColorLoop_firstSolid
      firstSolid_def split: option.splits)

lemma toHex_not_Nil: "toHex r g b a \<noteq> []"
  by (simp add: toHex_def Let_def)

lemma firstSolidFillColor_not_Nil: "firstSolidFillColor node = Some s \<Longrightarrow> s \<noteq> []"
  by (auto simp add: firstSolidFillColor_firstSolid diffColor_def toHex_not_Nil
      Option.bind_eq_Some_conv)

lemma snapshotVisit_fillColors:
  "set (fillColorsSet (snapshotVisit numStr item st)) =
     set (fillColorsSet st) \<union> {s. firstSolidFillColor item = Some s}"
proof (cases "firstSolidFillColor item")
  case None
  then show ?thesis by (simp add: snapshotVisit_def Let_def split: option.splits)
next
  case (Some s)
  then have "s \<noteq> []" by (rule firstSolidFillColor_not_Nil)
  with Some show ?thesis
    by (simp add: snapshotVisit_def Let_def set_setAdd split: option.splits)
qed

lemma fold_snapshotVisit_fillColors:
  "set (fillColorsSet (fold (snapshotVisit numStr) ns st)) =
     set (fillColorsSet st) \<union> {s. \<exists>node \<in> set ns. firstSolidFillColor node = Some s}"
proof (induction ns arbitrary: st)
  case Nil
  show ?case by simp
next
  case (Cons node ns)
  show ?case by (auto simp add: Cons.IH snapshotVisit_fillColors)
qed

lemma snapshot_fillColors_set:
  "set (fillColors (snapshot numStr n)) =
     {s. \<exists>node \<in> set (preorder n). firstSolidFillColor node = Some s}"
  by (simp add: snapshot_def Let_def traverse_fold fold_snapshotVisit_fillColors)

lemma diff_first_fills_same_color:
  assumes "firstSolid (fillList n1) = Some f1" "firstSolid (fillList n2) = Some f2"
    and "solidColor f1 = Some c1" "solidColor f2 = Some c2"
    and "color_r c1 = color_r c2" "color_g c1 = color_g c2" "color_b c1 = color_b c2"
  shows "(firstSolidFillColor n1 = firstSolidFillColor n2) =
     ((js_less (fillAlpha f1 c1) (Fin 1) = js_less (fillAlpha f2 c2) (Fin 1)) \<and>
      (js_less (fillAlpha f1 c1) (Fin 1) \<longrightarrow>
         toByteHex (fillAlpha f1 c1) = toByteHex (fillAlpha f2 c2)))"
  using assms
    toHex_eq_iff [of "color_r c2" "color_g c2" "color_b c2" "fillAlpha f1 c1" "fillAlpha f2 c2"]
  by (simp add: firstSolidFillColor_firstSolid diffColor_def)

text \<open>
  C9 (as amended). The audit's \<^const>\<open>rgbaToHex\<close> does not depend on its alpha argument, and
  the colors the audit collects from a tree are the same for any two trees that differ only
  in the alpha and opacity of their fills: they are the six digits of the solid fills of all
  nodes, so two solid fills with equal red, green and blue are one color for it wherever
  they are. The diff's \<^const>\<open>toHex\<close> gives the same six digits, followed by an alpha byte
  exactly when alpha is below 1. The diff reads one color from each node, that of its first
  fill that is solid and has a color, and its fill colors are the set of these, sorted. So
  two fills with equal red, green and blue, each the first solid fill of a node, are one
  color of the diff exactly when both alphas are not below 1, or both are below 1 and round
  to the same byte; the alpha of a fill is its opacity if it has one, else the alpha of its
  color, else 1.
\<close>

theorem audit_ignores_alpha_diff_appends_byte:
  "rgbaToHex r g b a = rgbaToHex r g b a' \<and>
   (\<forall>n m. eraseAlpha n = eraseAlpha m \<longrightarrow>
      auditColors n = auditColors m \<and> uniqueColors n = uniqueColors m \<and>
      auditScore (c\<lparr>colorsSize := uniqueColors n\<rparr>) =
      auditScore (c\<lparr>colorsSize := uniqueColors m\<rparr>)) \<and>
   set (auditColors n) = sixDigits ` set (treeColors n) \<and>
   uniqueColors n = card (sixDigits ` set (treeColors n)) \<and>
   (solidColor f1 = Some c1 \<and> solidColor f2 = Some c2 \<and>
    color_r c1 = color_r c2 \<and> color_g c1 = color_g c2 \<and> color_b c1 = color_b c2 \<longrightarrow>
      sixDigits c1 = sixDigits c2 \<and> length (auditFillColors [f1, f2] []) = 1) \<and>
   (js_less a (Fin 1) \<longrightarrow> toHex r g b a = rgbaToHex r g b a' @ toByteHex a) \<and>
   (\<not> js_less a (Fin 1) \<longrightarrow> toHex r g b a = rgbaToHex r g b a') \<and>
   ((toHex r g b a = toHex r g b a') =
      ((js_less a (Fin 1) = js_less a' (Fin 1)) \<and>
       (js_less a (Fin 1) \<longrightarrow> toByteHex a = toByteHex a'))) \<and>
   firstSolidFillColor node = Option.bind (firstSolid (fillList node)) diffColor \<and>
   sorted_wrt (<) (fillColors (snapshot numStr n)) \<and>
   set (fillColors (snapshot numStr n)) =
     {s. \<exists>node \<in> set (preorder n). firstSolidFillColor node = Some s} \<and>
   (firstSolid (fillList n1) = Some f1 \<and> firstSolid (fillList n2) = Some f2 \<and>
    solidColor f1 = Some c1 \<and> solidColor f2 = Some c2 \<and>
    color_r c1 = color_r c2 \<and> color_g c1 = color_g c2 \<and> color_b c1 = color_b c2 \<longrightarrow>
      ((firstSolidFillColor n1 = firstSolidFillColor n2) =
         ((js_less (fillAlpha f1 c1) (Fin 1) = js_less (fillAlpha f2 c2) (Fin 1)) \<and>
          (js_less (fillAlpha f1 c1) (Fin 1) \<longrightarrow>
             toByteHex (fillAlpha f1 c1) = toByteHex (fillAlpha f2 c2)))))"
proof (intro conjI allI impI)
  show "rgbaToHex r g b a = rgbaToHex r g b a'" by (simp add: rgbaToHex_def)
  show e: "auditColors n = auditColors m" if "eraseAlpha n = eraseAlpha m" for n m
    using that auditColors_erase [of n] auditColors_erase [of m] by simp
  show "uniqueColors n = uniqueColors m" if "eraseAlpha n = eraseAlpha m" for n m
    using e [OF that] by (simp add: uniqueColors_def)
  show "auditScore (c\<lparr>colorsSize := uniqueColors n\<rparr>) =
      auditScore (c\<lparr>colorsSize := uniqueColors m\<rparr>)" if "eraseAlpha n = eraseAlpha m" for n m
    using e [OF that] by (simp add: uniqueColors_def)
  show "set (auditColors n) = sixDigits ` set (treeColors n)" by (rule auditColors_set)
  show "uniqueColors n = card (sixDigits ` set (treeColors n))" by (rule uniqueColors_card)
  show "toHex r g b a = rgbaToHex r g b a' @ toByteHex a" if "js_less a (Fin 1)"
    using that by (rule toHex_below_one)
  show "toHex r g b a = rgbaToHex r g b a'" if "\<not> js_less a (Fin 1)"
    using that by (rule toHex_not_below_one)
  show "(toHex r g b a = toHex r g b a') =
      ((js_less a (Fin 1) = js_less a' (Fin 1)) \<and>
       (js_less a (Fin 1) \<longrightarrow> toByteHex a = toByteHex a'))"
    by (rule toHex_eq_iff)
  show "firstSolidFillColor node = Option.bind (firstSolid (fillList node)) diffColor"
    by (rule firstSolidFillColor_firstSolid)
  show "sorted_wrt (<) (fillColors (snapshot numStr n))"
    using snapshot_strictly_sorted [of numStr n] by (rule conjunct2)
  show "set (fillColors (snapshot numStr n)) =
     {s. \<exists>node \<in> set (preorder n). firstSolidFillColor node = Some s}"
    by (rule snapshot_fillColors_set)
next
  assume h: "solidColor f1 = Some c1 \<and> solidColor f2 = Some c2 \<and>
    color_r c1 = color_r c2 \<and> color_g c1 = color_g c2 \<and> color_b c1 = color_b c2"
  then show "sixDigits c1 = sixDigits c2" by (simp add: sixDigits_def)
  from h show "length (auditFillColors [f1, f2] []) = 1"
    by (intro audit_two_fills_one_color [of f1 c1 f2 c2]) simp_all
next
  assume h: "firstSolid (fillList n1) = Some f1 \<and> firstSolid (fillList n2) = Some f2 \<and>
    solidColor f1 = Some c1 \<and> solidColor f2 = Some c2 \<and>
    color_r c1 = color_r c2 \<and> color_g c1 = color_g c2 \<and> color_b c1 = color_b c2"
  then show "(firstSolidFillColor n1 = firstSolidFillColor n2) =
         ((js_less (fillAlpha f1 c1) (Fin 1) = js_less (fillAlpha f2 c2) (Fin 1)) \<and>
          (js_less (fillAlpha f1 c1) (Fin 1) \<longrightarrow>
             toByteHex (fillAlpha f1 c1) = toByteHex (fillAlpha f2 c2)))"
    by (intro diff_first_fills_same_color [of n1 f1 n2 f2 c1 c2]) simp_all
qed

theorem audit_ignores_alpha_diff_appends_byte_witness:
  "auditColors (twoAlphaFrame 1 (1 / 2)) = [''#ff0000''] \<and>
   uniqueColors (twoAlphaFrame 1 (1 / 2)) = 1 \<and>
   length (treeColors (twoAlphaFrame 1 (1 / 2))) = 2 \<and>
   card (sixDigits ` set (treeColors (twoAlphaFrame 1 (1 / 2)))) = 1 \<and>
   fillColors (snapshot decimalString (twoAlphaFrame 1 (1 / 2))) = [''#ff0000'', ''#ff000080''] \<and>
   toHex (Fin 1) (Fin 0) (Fin 0) (Fin (1 / 2)) = ''#ff0000'' @ ''80'' \<and>
   toHex (Fin 1) (Fin 0) (Fin 0) (Fin 1) = ''#ff0000'' \<and>
   firstSolidFillColor (rectNode ''7:2'' (solidFill 1 0 0 1)) \<noteq>
     firstSolidFillColor (rectNode ''7:3'' (solidFill 1 0 0 (1 / 2))) \<and>
   firstSolidFillColor (rectNode ''7:3'' (solidFill 1 0 0 (1 / 2))) \<noteq>
     firstSolidFillColor (rectNode ''7:4'' fadedFill) \<and>
   length (auditFillColors [solidFill 1 0 0 (1 / 2), fadedFill] []) = 1 \<and>
   firstSolidFillColor stackedFills = diffColor (solidFill 1 0 0 1)"
proof -
  let ?red = "\<lambda>x. \<lparr>color_r = Fin 1, color_g = Fin 0, color_b = Fin 0, color_a = Some (Fin x)\<rparr>"
  let ?n1 = "rectNode ''7:2'' (solidFill 1 0 0 1)"
  let ?n2 = "rectNode ''7:3'' (solidFill 1 0 0 (1 / 2))"
  let ?n3 = "rectNode ''7:4'' fadedFill"
  have e: "eraseAlpha (twoAlphaFrame 1 (1 / 2)) = eraseAlpha (twoAlphaFrame 1 1)"
    by (simp add: twoAlphaFrame_def rectNode_def solidFill_def mkFields_def eraseFillAlpha_def)
  have c: "auditColors (twoAlphaFrame 1 1) = [''#ff0000'']"
    by code_simp
  have h: "rgbaToHex (Fin 1) (Fin 0) (Fin 0) (Fin 1) = ''#ff0000''"
    "toByteHex (Fin (1 / 2)) = ''80''" "toByteHex (Fin (1 / 4)) = ''40''"
    by code_simp+
  have l: "js_less (Fin (1 / 2)) (Fin 1)" "js_less (Fin (1 / 4)) (Fin 1)" "\<not> js_less (Fin 1) (Fin 1)"
    by simp_all
  have s: "fillColors (snapshot decimalString (twoAlphaFrame 1 (1 / 2))) = [''#ff0000'', ''#ff000080'']"
    by code_simp
  have first: "firstSolid (fillList ?n1) = Some (solidFill 1 0 0 1)"
    "firstSolid (fillList ?n2) = Some (solidFill 1 0 0 (1 / 2))"
    "firstSolid (fillList ?n3) = Some fadedFill"
    "firstSolid (fillList stackedFills) = Some (solidFill 1 0 0 1)"
    by (simp_all add: firstSolid_def fillList_def rectNode_def stackedFills_def mkFields_def
        solidColor_def solidFill_def fadedFill_def)
  have col: "solidColor (solidFill 1 0 0 1) = Some (?red 1)"
    "solidColor (solidFill 1 0 0 (1 / 2)) = Some (?red (1 / 2))"
    "solidColor fadedFill = Some (?red 1)"
    by (simp_all add: solidColor_def solidFill_def fadedFill_def)
  have fa: "fillAlpha (solidFill 1 0 0 1) (?red 1) = Fin 1"
    "fillAlpha (solidFill 1 0 0 (1 / 2)) (?red (1 / 2)) = Fin (1 / 2)"
    "fillAlpha fadedFill (?red 1) = Fin (1 / 4)"
    by (simp_all add: fillAlpha_def solidFill_def fadedFill_def)
  note t1 = audit_ignores_alpha_diff_appends_byte
    [where r = "Fin 1" and g = "Fin 0" and b = "Fin 0" and a = "Fin (1 / 2)" and a' = "Fin 1"
      and c = busyFile and n = "twoAlphaFrame 1 (1 / 2)" and numStr = decimalString
      and node = stackedFills and ?n1.0 = ?n1 and ?n2.0 = ?n2
      and ?f1.0 = "solidFill 1 0 0 1" and ?f2.0 = "solidFill 1 0 0 (1 / 2)"
      and ?c1.0 = "?red 1" and ?c2.0 = "?red (1 / 2)"]
  note t2 = audit_ignores_alpha_diff_appends_byte
    [where r = "Fin 1" and g = "Fin 0" and b = "Fin 0" and a = "Fin 1" and a' = "Fin 1"
      and c = busyFile and n = "twoAlphaFrame 1 (1 / 2)" and numStr = decimalString
      and node = stackedFills and ?n1.0 = ?n2 and ?n2.0 = ?n3
      and ?f1.0 = "solidFill 1 0 0 (1 / 2)" and ?f2.0 = fadedFill
      and ?c1.0 = "?red (1 / 2)" and ?c2.0 = "?red 1"]
  from t1 [THEN conjunct2, THEN conjunct1, rule_format, OF e] c
  have a1: "auditColors (twoAlphaFrame 1 (1 / 2)) = [''#ff0000'']" by simp
  then have a2: "uniqueColors (twoAlphaFrame 1 (1 / 2)) = 1" by (simp add: uniqueColors_def)
  have a4: "length (treeColors (twoAlphaFrame 1 (1 / 2))) = 2"
    by code_simp
  from t1 [THEN conjunct2, THEN conjunct2, THEN conjunct2, THEN conjunct1] a2
  have a5: "card (sixDigits ` set (treeColors (twoAlphaFrame 1 (1 / 2)))) = 1" by simp
  from t1 [THEN conjunct2, THEN conjunct2, THEN conjunct2, THEN conjunct2, THEN conjunct2, THEN conjunct1, rule_format, OF l(1)] h
  have d1: "toHex (Fin 1) (Fin 0) (Fin 0) (Fin (1 / 2)) = ''#ff0000'' @ ''80''" by simp
  from t2 [THEN conjunct2, THEN conjunct2, THEN conjunct2, THEN conjunct2, THEN conjunct2, THEN conjunct2, THEN conjunct1, rule_format, OF l(3)] h
  have d2: "toHex (Fin 1) (Fin 0) (Fin 0) (Fin 1) = ''#ff0000''" by simp
  have "firstSolid (fillList ?n1) = Some (solidFill 1 0 0 1) \<and>
    firstSolid (fillList ?n2) = Some (solidFill 1 0 0 (1 / 2)) \<and>
    solidColor (solidFill 1 0 0 1) = Some (?red 1) \<and>
    solidColor (solidFill 1 0 0 (1 / 2)) = Some (?red (1 / 2)) \<and>
    color_r (?red 1) = color_r (?red (1 / 2)) \<and> color_g (?red 1) = color_g (?red (1 / 2)) \<and>
    color_b (?red 1) = color_b (?red (1 / 2))"
    using first col by simp
  from t1 [THEN conjunct2, THEN conjunct2, THEN conjunct2, THEN conjunct2, THEN conjunct2, THEN conjunct2, THEN conjunct2, THEN conjunct2, THEN conjunct2, THEN conjunct2, THEN conjunct2, rule_format, OF this]
  have d3: "firstSolidFillColor ?n1 \<noteq> firstSolidFillColor ?n2"
    unfolding fa using l by simp
  have "firstSolid (fillList ?n2) = Some (solidFill 1 0 0 (1 / 2)) \<and>
    firstSolid (fillList ?n3) = Some fadedFill \<and>
    solidColor (solidFill 1 0 0 (1 / 2)) = Some (?red (1 / 2)) \<and>
    solidColor fadedFill = Some (?red 1) \<and>
    color_r (?red (1 / 2)) = color_r (?red 1) \<and> color_g (?red (1 / 2)) = color_g (?red 1) \<and>
    color_b (?red (1 / 2)) = color_b (?red 1)"
    using first col by simp
  from t2 [THEN conjunct2, THEN conjunct2, THEN conjunct2, THEN conjunct2, THEN conjunct2, THEN conjunct2, THEN conjunct2, THEN conjunct2, THEN conjunct2, THEN conjunct2, THEN conjunct2, rule_format, OF this]
  have d4: "firstSolidFillColor ?n2 \<noteq> firstSolidFillColor ?n3"
    unfolding fa using l h by simp
  have "solidColor (solidFill 1 0 0 (1 / 2)) = Some (?red (1 / 2)) \<and>
    solidColor fadedFill = Some (?red 1) \<and>
    color_r (?red (1 / 2)) = color_r (?red 1) \<and> color_g (?red (1 / 2)) = color_g (?red 1) \<and>
    color_b (?red (1 / 2)) = color_b (?red 1)"
    using col by simp
  from t2 [THEN conjunct2, THEN conjunct2, THEN conjunct2, THEN conjunct2, THEN conjunct1, rule_format, OF this]
  have a3: "length (auditFillColors [solidFill 1 0 0 (1 / 2), fadedFill] []) = 1" by simp
  from t1 [THEN conjunct2, THEN conjunct2, THEN conjunct2, THEN conjunct2, THEN conjunct2, THEN conjunct2, THEN conjunct2, THEN conjunct2, THEN conjunct1] first(4)
  have d5: "firstSolidFillColor stackedFills = diffColor (solidFill 1 0 0 1)" by simp
  from a1 a2 a4 a5 s d1 d2 d3 d4 a3 d5 show ?thesis by (intro conjI)
qed

text \<open>
  C9 as stated fails in two ways. Alphas that round to the same byte give one color of the
  diff: two red fills on two rectangles with alpha 0.5 and 0.501 both give \<^verbatim>\<open>#ff000080\<close>.
  And of two solid fills on one node the diff reads the first only: a rectangle with a red
  fill of alpha 1 and a red fill of alpha 0.5 has the one fill color \<^verbatim>\<open>#ff0000\<close>.
\<close>

theorem diff_distinct_alphas_one_color:
  "toDouble (501 / 1000) = Fin (4512606826625237 / 9007199254740992) \<and>
   fillColors (snapshot decimalString
     (twoAlphaFrame (1 / 2) (4512606826625237 / 9007199254740992))) = [''#ff000080''] \<and>
   toHex (Fin 1) (Fin 0) (Fin 0) (Fin (1 / 2)) =
     toHex (Fin 1) (Fin 0) (Fin 0) (Fin (4512606826625237 / 9007199254740992)) \<and>
   fills (nodeFields stackedFills) = Some [solidFill 1 0 0 1, solidFill 1 0 0 (1 / 2)] \<and>
   fillColors (snapshot decimalString stackedFills) = [''#ff0000''] \<and>
   auditColors stackedFills = [''#ff0000'']"
  by code_simp

section \<open>Style derivation\<close>

lemma map_of_setProperty:
  "map_of (setProperty key v al) k = (if k = key then Some v else map_of al k)"
  by (induction al) auto

lemma map_of_setWhen:
  "map_of (setWhen cond key v al) k = (if cond \<and> k = key then Some v else map_of al k)"
  by (simp add: setWhen_def map_of_setProperty)

lemma fillStrokeCss_other:
  "typographyKey key \<Longrightarrow> map_of (fillStrokeCss node acc) key = map_of acc key"
  by (auto simp add: typographyKey_def fillStrokeCss_def Let_def map_of_setWhen map_of_setProperty)

lemma boxCss_other:
  "typographyKey key \<Longrightarrow> map_of (boxCss numStr node acc) key = map_of acc key"
  by (auto simp add: typographyKey_def boxCss_def map_of_setProperty split: option.splits)

lemma autoLayoutCss_other:
  "typographyKey key \<Longrightarrow> map_of (autoLayoutCss numStr node acc) key = map_of acc key"
  by (auto simp add: typographyKey_def autoLayoutCss_def Let_def map_of_setWhen map_of_setProperty)

lemma paddingCss_other:
  "typographyKey key \<Longrightarrow> map_of (paddingCss numStr padding acc) key = map_of acc key"
  by (auto simp add: typographyKey_def paddingCss_def map_of_setWhen)

lemma decorationCss_other:
  "typographyKey key \<Longrightarrow> map_of (decorationCss numStr node acc) key = map_of acc key"
  by (auto simp add: typographyKey_def decorationCss_def Let_def map_of_setWhen map_of_setProperty
      split: jsval.splits)

lemma typography_lookup:
  "typographyKey key \<Longrightarrow>
   cssValue (buildStyleDetails numStr node) key = map_of (typographyCss numStr node []) key"
  by (simp add: cssValue_def buildStyleDetails_def Let_def decorationCss_other paddingCss_other
      autoLayoutCss_other boxCss_other)
    (simp add: typographyCss_def Let_def map_of_setWhen fillStrokeCss_other typographyKey_def)

text \<open>
  C8 (as amended). Each typography field of the style block reaches the CSS map exactly when
  its value is truthy: \<^verbatim>\<open>fontFamily\<close> and \<^verbatim>\<open>fontWeight\<close> as the string of the value,
  \<^verbatim>\<open>fontSize\<close>, \<^verbatim>\<open>lineHeightPx\<close> and \<^verbatim>\<open>letterSpacing\<close> as that string followed by
  \<^verbatim>\<open>px\<close>, \<^verbatim>\<open>textAlignHorizontal\<close> as that string in lower case. A field that is absent or
  whose value is falsy (0, \<open>NaN\<close>, the empty string, \<^verbatim>\<open>null\<close>, \<^verbatim>\<open>false\<close>) leaves no entry.
\<close>

theorem typography_emitted_when_truthy:
  "cssValue (buildStyleDetails numStr node) ''font-family'' =
     (if truthy (styleField node ''fontFamily'')
      then Some (jsString numStr (styleField node ''fontFamily'')) else None) \<and>
   cssValue (buildStyleDetails numStr node) ''font-size'' =
     (if truthy (styleField node ''fontSize'')
      then Some (jsString numStr (styleField node ''fontSize'') @ ''px'') else None) \<and>
   cssValue (buildStyleDetails numStr node) ''font-weight'' =
     (if truthy (styleField node ''fontWeight'')
      then Some (jsString numStr (styleField node ''fontWeight'')) else None) \<and>
   cssValue (buildStyleDetails numStr node) ''line-height'' =
     (if truthy (styleField node ''lineHeightPx'')
      then Some (jsString numStr (styleField node ''lineHeightPx'') @ ''px'') else None) \<and>
   cssValue (buildStyleDetails numStr node) ''letter-spacing'' =
     (if truthy (styleField node ''letterSpacing'')
      then Some (jsString numStr (styleField node ''letterSpacing'') @ ''px'') else None) \<and>
   cssValue (buildStyleDetails numStr node) ''text-align'' =
     (if truthy (styleField node ''textAlignHorizontal'')
      then Some (toLowerCase (jsString numStr (styleField node ''textAlignHorizontal'')))
      else None)"
proof -
  have keys: "typographyKey ''font-family''" "typographyKey ''font-size''"
    "typographyKey ''font-weight''" "typographyKey ''line-height''"
    "typographyKey ''letter-spacing''" "typographyKey ''text-align''"
    by (simp_all add: typographyKey_def)
  have block: "map_of (typographyCss numStr node []) key =
      (if key = ''text-align'' \<and> truthy (styleField node ''textAlignHorizontal'')
       then Some (toLowerCase (jsString numStr (styleField node ''textAlignHorizontal'')))
       else if key = ''letter-spacing'' \<and> truthy (styleField node ''letterSpacing'')
       then Some (jsString numStr (styleField node ''letterSpacing'') @ ''px'')
       else if key = ''line-height'' \<and> truthy (styleField node ''lineHeightPx'')
       then Some (jsString numStr (styleField node ''lineHeightPx'') @ ''px'')
       else if key = ''font-weight'' \<and> truthy (styleField node ''fontWeight'')
       then Some (jsString numStr (styleField node ''fontWeight''))
       else if key = ''font-size'' \<and> truthy (styleField node ''fontSize'')
       then Some (jsString numStr (styleField node ''fontSize'') @ ''px'')
       else if key = ''font-family'' \<and> truthy (styleField node ''fontFamily'')
       then Some (jsString numStr (styleField node ''fontFamily''))
       else None)" for key
    by (simp add: typographyCss_def Let_def map_of_setWhen)
  show ?thesis
    unfolding keys [THEN typography_lookup] block by simp
qed

theorem typography_emitted_when_truthy_witness:
  "cssValue (buildStyleDetails decimalString (textNode ''5:2'' ''Save'' 400 (solidFill 1 0 0 1)))
      ''font-size'' = Some ''16px'' \<and>
   cssValue (buildStyleDetails decimalString (textNode ''5:2'' ''Save'' 400 (solidFill 1 0 0 1)))
      ''font-family'' = Some ''Inter'' \<and>
   cssValue (buildStyleDetails decimalString (textNode ''5:2'' ''Save'' 400 (solidFill 1 0 0 1)))
      ''letter-spacing'' = None"
proof -
  let ?n = "textNode ''5:2'' ''Save'' 400 (solidFill 1 0 0 1)"
  have f: "styleField ?n ''fontSize'' = JNum (Fin 16)"
    "styleField ?n ''fontFamily'' = JStr ''Inter''"
    "styleField ?n ''letterSpacing'' = JUndefined"
    by (simp_all add: styleField_def textNode_def mkFields_def)
  have d: "decimalString (Fin 16) = ''16''"
    by code_simp
  from typography_emitted_when_truthy [of decimalString ?n]
  show ?thesis by (simp add: f d truthy_def jsString_def)
qed

text \<open>
  C8 as stated fails for a field that is present with a falsy value, and for the alignment,
  which is not copied verbatim: a text node whose style holds a letter spacing of 0 and the
  alignment \<^verbatim>\<open>LEFT\<close> gets no \<^verbatim>\<open>letter-spacing\<close> entry, and \<^verbatim>\<open>text-align\<close> is \<^verbatim>\<open>left\<close>.
\<close>

theorem typography_zero_letterSpacing_omitted:
  "styleField zeroSpacingText ''letterSpacing'' = JNum (Fin 0) \<and>
   cssValue (buildStyleDetails decimalString zeroSpacingText) ''letter-spacing'' = None \<and>
   styleField zeroSpacingText ''textAlignHorizontal'' = JStr ''LEFT'' \<and>
   cssValue (buildStyleDetails decimalString zeroSpacingText) ''text-align'' = Some ''left'' \<and>
   cssValue (buildStyleDetails decimalString zeroSpacingText) ''font-size'' = Some ''16px''"
  by code_simp

lemma buildStyleDetails_padding_examples:
  "cssValue (buildStyleDetails decimalString paddedCard) ''padding'' = Some ''12px 16px 12px 16px'' \<and>
   pad_source (layout_padding (layout (buildStyleDetails decimalString paddedCard))) = SrcExplicit \<and>
   cssValue (buildStyleDetails decimalString cardFrame) ''padding'' = Some ''20px 10px 20px 10px'' \<and>
   pad_source (layout_padding (layout (buildStyleDetails decimalString cardFrame))) = SrcInferred"
  by code_simp

end
